theory Spec2Isabelle
  imports Complex_Main "HOL-Library.Char_ord" "HOL-Library.List_Lexorder"
begin

section \<open>Errors\<close>

text \<open>
  Every exception the modelled code can raise is a value. The constructors are named after
  what went wrong; the Python exception class is given beside each.
\<close>

datatype error =
    ArgumentCountError    \<comment> \<open>TypeError: a call with the wrong number of positional arguments\<close>
  | AttributeError        \<comment> \<open>AttributeError: the object has no attribute of that name\<close>
  | TreeStructureError    \<comment> \<open>ValueError of jax.tree\_util: the trees do not have the same structure\<close>
  | UnsupportedOperand    \<comment> \<open>TypeError: arithmetic between a number and a container\<close>
  | BroadcastError        \<comment> \<open>the shapes of the two operands cannot be broadcast together\<close>

section \<open>Arrays\<close>

text \<open>
  A tensor is an n-dimensional array: its shape and its elements in row-major order. A
  Python scalar is the array of shape \<open>[]\<close> with one element. The element type \<open>'a\<close> is
  left open: the model uses only \<open>0\<close>, \<open>1\<close>, \<open>+\<close>, \<open>-\<close> and \<open>*\<close> of it, with no law
  assumed, so that it covers floating-point arithmetic as well as exact arithmetic.
\<close>

datatype 'a ndarray = NDArray (shape: "nat list") (elems: "'a list")

definition wf_array :: "'a ndarray \<Rightarrow> bool" where
  "wf_array a \<longleftrightarrow> length (elems a) = prod_list (shape a)"

text \<open>\<open>a * c\<close> and \<open>c * a\<close> for an array \<open>a\<close> and a Python scalar \<open>c\<close>.\<close>

definition mul_scalar_r :: "'a::times ndarray \<Rightarrow> 'a \<Rightarrow> 'a ndarray" where
  "mul_scalar_r a c = NDArray (shape a) (map (\<lambda>x. x * c) (elems a))"

definition mul_scalar_l :: "'a::times \<Rightarrow> 'a ndarray \<Rightarrow> 'a ndarray" where
  "mul_scalar_l c a = NDArray (shape a) (map (\<lambda>x. c * x) (elems a))"

text \<open>
  Broadcasting of two shapes, as NumPy and JAX do it: the shapes are aligned at their last
  dimension, a missing leading dimension counts as 1, and two dimensions are compatible
  when they are equal or one of them is 1. \<open>broadcast_dims\<close> works on the reversed shapes.
\<close>

fun broadcast_dims :: "nat list \<Rightarrow> nat list \<Rightarrow> nat list option" where
  "broadcast_dims [] ys = Some ys"
| "broadcast_dims xs [] = Some xs"
| "broadcast_dims (x # xs) (y # ys) =
     (if x = y \<or> y = 1 then map_option ((#) x) (broadcast_dims xs ys)
      else if x = 1 then map_option ((#) y) (broadcast_dims xs ys)
      else None)"

definition broadcast_shapes :: "nat list \<Rightarrow> nat list \<Rightarrow> nat list option" where
  "broadcast_shapes s1 s2 = map_option rev (broadcast_dims (rev s1) (rev s2))"

text \<open>
  \<open>expand t s xs\<close> repeats the elements \<open>xs\<close> of an array of shape \<open>s\<close> to the shape \<open>t\<close>
  of the same rank: a dimension of the source that differs from the target has size 1 and is
  repeated.
\<close>

fun expand :: "nat list \<Rightarrow> nat list \<Rightarrow> 'a list \<Rightarrow> 'a list" where
  "expand (t # ts) (s # ss) xs =
     (if s = t
      then concat (map (\<lambda>i. expand ts ss (take (prod_list ss) (drop (i * prod_list ss) xs))) [0..<t])
      else concat (replicate t (expand ts ss xs)))"
| "expand _ _ xs = xs"

definition broadcast_to :: "nat list \<Rightarrow> 'a ndarray \<Rightarrow> 'a ndarray" where
  "broadcast_to t a =
     NDArray t (expand t (replicate (length t - length (shape a)) 1 @ shape a) (elems a))"

text \<open>\<open>a + b\<close> for two arrays.\<close>

definition add_arrays :: "'a::plus ndarray \<Rightarrow> 'a ndarray \<Rightarrow> error + 'a ndarray" where
  "add_arrays a b =
     (case broadcast_shapes (shape a) (shape b) of
        None \<Rightarrow> Inl BroadcastError
      | Some t \<Rightarrow>
          Inr (NDArray t (map2 (+) (elems (broadcast_to t a)) (elems (broadcast_to t b)))))"

text \<open>
  The broadcasting rule in NumPy's words, to state what the arithmetic above computes.
  Two shapes are compatible when, aligned at their last dimension, every pair of
  dimensions is equal or has a 1. The result has the rank of the longer shape; a shape is
  padded with leading 1s to that rank, and each dimension of the result is the one of the
  pair that is not 1. \<open>ravel\<close> is the row-major position of a multi-index, and the
  element of an array at a multi-index of the result is the element at the same index
  with 0 in the dimensions where the array has size 1.
\<close>

definition shapes_compatible :: "nat list \<Rightarrow> nat list \<Rightarrow> bool" where
  "shapes_compatible s1 s2 \<longleftrightarrow>
     list_all (\<lambda>(m, n). m = n \<or> m = 1 \<or> n = 1) (zip (rev s1) (rev s2))"

definition pad_shape :: "nat \<Rightarrow> nat list \<Rightarrow> nat list" where
  "pad_shape rank s = replicate (rank - length s) 1 @ s"

definition broadcast_result :: "nat list \<Rightarrow> nat list \<Rightarrow> nat list" where
  "broadcast_result s1 s2 =
     (let rank = max (length s1) (length s2)
      in map2 (\<lambda>m n. if m = 1 then n else m) (pad_shape rank s1) (pad_shape rank s2))"

fun ravel :: "nat list \<Rightarrow> nat list \<Rightarrow> nat" where
  "ravel (n # ns) (i # is) = i * prod_list ns + ravel ns is"
| "ravel ns is = 0"

definition in_bounds :: "nat list \<Rightarrow> nat list \<Rightarrow> bool" where
  "in_bounds s idx \<longleftrightarrow> list_all2 (<) idx s"

definition broadcast_element :: "'a ndarray \<Rightarrow> nat list \<Rightarrow> nat list \<Rightarrow> 'a" where
  "broadcast_element a t idx =
     (let s = pad_shape (length t) (shape a)
      in elems a ! ravel s (map2 (\<lambda>n i. if n = 1 then 0 else i) s idx))"


abbreviation fits :: "nat list \<Rightarrow> nat list \<Rightarrow> bool" where
  "fits s t \<equiv> list_all2 (\<lambda>n m. n = m \<or> n = 1) s t"

abbreviation clip :: "nat list \<Rightarrow> nat list \<Rightarrow> nat list" where
  "clip s idx \<equiv> map2 (\<lambda>n i. if n = 1 then 0 else i) s idx"

section \<open>Parameter trees and the store\<close>

text \<open>
  The variables of a model are a nested dictionary from strings to tensors
  (\<open>FrozenDict[str, Any]\<close>). A dictionary is the list of its items in the order in which
  JAX visits them (ascending keys), so two dictionaries have the same keys exactly when
  their key lists are equal. The dictionaries are immutable values. A leaf is a reference
  to an array object in the store; whether two trees share a tensor is visible as equal
  references.
\<close>

datatype 'l pytree = Leaf 'l | Dict "(string \<times> 'l pytree) list"

type_synonym addr = nat

type_synonym 'a heap = "'a ndarray list"

definition alloc :: "'a heap \<Rightarrow> 'a ndarray \<Rightarrow> addr \<times> 'a heap" where
  "alloc h v = (length h, h @ [v])"

text \<open>An in-place write to an existing array object (\<open>a[...] = v\<close> on a NumPy array).\<close>

definition write_array :: "'a heap \<Rightarrow> addr \<Rightarrow> 'a ndarray \<Rightarrow> 'a heap" where
  "write_array h a v = h[a := v]"

text \<open>The tensor found under a path of keys, if the path leads to a leaf.\<close>

fun tree_get :: "'l pytree \<Rightarrow> string list \<Rightarrow> 'l option" where
  "tree_get (Leaf x) [] = Some x"
| "tree_get (Dict kvs) (k # ks) =
     (case map_of kvs k of None \<Rightarrow> None | Some t \<Rightarrow> tree_get t ks)"
| "tree_get _ _ = None"

text \<open>The subtree found under a path of keys.\<close>

fun subtree :: "'l pytree \<Rightarrow> string list \<Rightarrow> 'l pytree option" where
  "subtree t [] = Some t"
| "subtree (Dict kvs) (k # ks) =
     (case map_of kvs k of None \<Rightarrow> None | Some t \<Rightarrow> subtree t ks)"
| "subtree (Leaf a) (k # ks) = None"

text \<open>The contents of a tree: every reference replaced by the array it points to.\<close>

definition deref :: "'a heap \<Rightarrow> addr pytree \<Rightarrow> 'a ndarray pytree" where
  "deref h t = map_pytree (\<lambda>a. h ! a) t"

text \<open>
  The leaves of a tree are allocated in a store when each refers to an array object of
  the store, whose buffer has as many elements as its shape says. The keys of a tree are
  sorted when every dictionary lists its items by strictly ascending key (so no key
  occurs twice). A tree is valid in a store when both hold.
\<close>

definition allocated :: "'a heap \<Rightarrow> addr pytree \<Rightarrow> bool" where
  "allocated h t \<longleftrightarrow> (\<forall>a \<in> set_pytree t. a < length h \<and> wf_array (h ! a))"

fun sorted_keys :: "'l pytree \<Rightarrow> bool"
  and items_sorted_keys :: "(string \<times> 'l pytree) list \<Rightarrow> bool"
where
  "sorted_keys (Leaf a) = True"
| "sorted_keys (Dict kvs) = items_sorted_keys kvs"
| "items_sorted_keys [] = True"
| "items_sorted_keys ((k, t) # kvs) =
     (sorted_keys t \<and> (\<forall>k' \<in> set (map fst kvs). k < k') \<and> items_sorted_keys kvs)"

definition valid_tree :: "'a heap \<Rightarrow> addr pytree \<Rightarrow> bool" where
  "valid_tree h t \<longleftrightarrow> sorted_keys t \<and> allocated h t"

text \<open>
  \<open>jax.tree_leaves(tree)\<close>, the leaves in traversal order, and the structure of a tree
  (its keys at every level, the treedef of JAX).
\<close>

fun tree_leaves :: "'l pytree \<Rightarrow> 'l list"
  and items_leaves :: "(string \<times> 'l pytree) list \<Rightarrow> 'l list"
where
  "tree_leaves (Leaf a) = [a]"
| "tree_leaves (Dict kvs) = items_leaves kvs"
| "items_leaves [] = []"
| "items_leaves ((k, t) # kvs) = tree_leaves t @ items_leaves kvs"

definition tree_structure :: "'l pytree \<Rightarrow> unit pytree" where
  "tree_structure t = map_pytree (\<lambda>a. ()) t"

definition leaf_shapes :: "'a heap \<Rightarrow> addr pytree \<Rightarrow> nat list list" where
  "leaf_shapes h t = map (\<lambda>a. shape (h ! a)) (tree_leaves t)"

text \<open>\<open>jax.tree_map(f, tree)\<close>: the tree with \<open>f\<close> applied to every leaf.\<close>

definition tree_map :: "('l \<Rightarrow> 'm) \<Rightarrow> 'l pytree \<Rightarrow> 'm pytree" where
  "tree_map f t = map_pytree f t"

text \<open>
  \<open>jax.tree_multimap(f, tree, rest)\<close> flattens \<open>tree\<close>, flattens \<open>rest\<close> up to the
  structure of \<open>tree\<close> (raising when \<open>rest\<close> does not have that structure; a leaf of
  \<open>tree\<close> may stand against a whole subtree of \<open>rest\<close>), applies \<open>f\<close> to the pairs in
  leaf order and rebuilds the tree. \<open>flattens_up_to\<close> is the structure check;
  \<open>multimap\<close> applies \<open>f\<close> along the two trees in leaf order, threading the store.
\<close>

fun flattens_up_to :: "'l pytree \<Rightarrow> 'm pytree \<Rightarrow> bool"
  and items_flatten_up_to :: "(string \<times> 'l pytree) list \<Rightarrow> (string \<times> 'm pytree) list \<Rightarrow> bool"
where
  "flattens_up_to (Leaf a) r = True"
| "flattens_up_to (Dict kvs) (Leaf b) = False"
| "flattens_up_to (Dict kvs) (Dict kvs2) = items_flatten_up_to kvs kvs2"
| "items_flatten_up_to [] [] = True"
| "items_flatten_up_to ((k, t) # kvs) ((k2, t2) # kvs2) =
     (k = k2 \<and> flattens_up_to t t2 \<and> items_flatten_up_to kvs kvs2)"
| "items_flatten_up_to [] (x # kvs2) = False"
| "items_flatten_up_to (x # kvs) [] = False"

fun multimap ::
    "('l \<Rightarrow> 'm pytree \<Rightarrow> 'h \<Rightarrow> error + 'n \<times> 'h) \<Rightarrow> 'l pytree \<Rightarrow> 'm pytree \<Rightarrow> 'h
      \<Rightarrow> error + 'n pytree \<times> 'h"
  and multimap_items ::
    "('l \<Rightarrow> 'm pytree \<Rightarrow> 'h \<Rightarrow> error + 'n \<times> 'h) \<Rightarrow> (string \<times> 'l pytree) list
      \<Rightarrow> (string \<times> 'm pytree) list \<Rightarrow> 'h \<Rightarrow> error + (string \<times> 'n pytree) list \<times> 'h"
where
  "multimap f (Leaf a) r h =
     (case f a r h of Inl e \<Rightarrow> Inl e | Inr (c, h') \<Rightarrow> Inr (Leaf c, h'))"
| "multimap f (Dict kvs) (Leaf b) h = Inl TreeStructureError"
| "multimap f (Dict kvs) (Dict kvs2) h =
     (case multimap_items f kvs kvs2 h of
        Inl e \<Rightarrow> Inl e
      | Inr (kvs', h') \<Rightarrow> Inr (Dict kvs', h'))"
| "multimap_items f [] [] h = Inr ([], h)"
| "multimap_items f ((k, t) # kvs) ((k2, t2) # kvs2) h =
     (if k \<noteq> k2 then Inl TreeStructureError
      else case multimap f t t2 h of
        Inl e \<Rightarrow> Inl e
      | Inr (t', h') \<Rightarrow>
          (case multimap_items f kvs kvs2 h' of
             Inl e \<Rightarrow> Inl e
           | Inr (kvs', h'') \<Rightarrow> Inr ((k, t') # kvs', h'')))"
| "multimap_items f [] (x # kvs2) h = Inl TreeStructureError"
| "multimap_items f (x # kvs) [] h = Inl TreeStructureError"

definition tree_multimap ::
    "('l \<Rightarrow> 'm pytree \<Rightarrow> 'h \<Rightarrow> error + 'n \<times> 'h) \<Rightarrow> 'l pytree \<Rightarrow> 'm pytree \<Rightarrow> 'h
      \<Rightarrow> error + 'n pytree \<times> 'h" where
  "tree_multimap f t r h =
     (if flattens_up_to t r then multimap f t r h else Inl TreeStructureError)"

section \<open>EmaState\<close>

record 'a EmaState =
  decay :: 'a
  variables :: "addr pytree option"

text \<open>\<open>EmaState()\<close>: both fields at their defaults, \<open>decay = 0.\<close> and \<open>variables = None\<close>.\<close>

definition EmaState_default :: "'a::zero EmaState" where
  "EmaState_default = \<lparr>decay = 0, variables = None\<rparr>"

definition create :: "'a::zero \<Rightarrow> addr pytree \<Rightarrow> 'a EmaState" where
  "create d vs =
     (if d = 0 then EmaState_default
      else (let ema_variables = tree_map (\<lambda>x. x) vs
            in \<lparr>decay = d, variables = Some ema_variables\<rparr>))"

text \<open>
  The function mapped over the leaves by \<open>update\<close>:
  \<open>lambda ema, p: ema * self.decay + (1. - self.decay) * p\<close>. \<open>ema\<close> is a leaf of the
  shadow tree; \<open>p\<close> is what stands against it in the new variables. The sum is a new
  array object; the two products are temporaries and are not kept.
\<close>

definition ema_leaf ::
    "'a::{one,plus,minus,times} \<Rightarrow> addr \<Rightarrow> addr pytree \<Rightarrow> 'a heap \<Rightarrow> error + addr \<times> 'a heap" where
  "ema_leaf d ema p h =
     (case p of
        Dict kvs \<Rightarrow> Inl UnsupportedOperand
      | Leaf b \<Rightarrow>
          (case add_arrays (mul_scalar_r (h ! ema) d) (mul_scalar_l (1 - d) (h ! b)) of
             Inl e \<Rightarrow> Inl e
           | Inr v \<Rightarrow> Inr (alloc h v)))"

text \<open>
  \<open>update\<close>. When the decay is not 0 and the state has no shadow (\<open>variables\<close> is
  \<open>None\<close>), \<open>jax.tree_multimap\<close> runs over a tree without leaves: nothing is
  computed, the new variables are not looked at and the result is \<open>None\<close> again.
\<close>

definition update ::
    "'a::{zero,one,plus,minus,times} EmaState \<Rightarrow> addr pytree \<Rightarrow> 'a heap
      \<Rightarrow> error + 'a EmaState \<times> 'a heap" where
  "update self new_variables h =
     (if decay self = 0 then Inr (self\<lparr>variables := None\<rparr>, h)
      else case variables self of
        None \<Rightarrow> Inr (self\<lparr>variables := None\<rparr>, h)
      | Some ema_variables \<Rightarrow>
          (case tree_multimap (ema_leaf (decay self)) ema_variables new_variables h of
             Inl e \<Rightarrow> Inl e
           | Inr (new_ema_variables, h') \<Rightarrow>
               Inr (self\<lparr>variables := Some new_ema_variables\<rparr>, h')))"

text \<open>A run of \<open>update\<close> calls, one per training step; it stops at the first error.\<close>

fun updates ::
    "'a::{zero,one,plus,minus,times} EmaState \<Rightarrow> addr pytree list \<Rightarrow> 'a heap
      \<Rightarrow> error + 'a EmaState \<times> 'a heap" where
  "updates s [] h = Inr (s, h)"
| "updates s (p # ps) h =
     (case update s p h of Inl e \<Rightarrow> Inl e | Inr (s', h') \<Rightarrow> updates s' ps h')"

text \<open>
  What a caller can observe of a result of \<open>update\<close>: the error, or the decay and the
  contents of the shadow.
\<close>

definition observe ::
    "error + 'a EmaState \<times> 'a heap \<Rightarrow> error + 'a \<times> 'a ndarray pytree option" where
  "observe r =
     (case r of
        Inl e \<Rightarrow> Inl e
      | Inr (s, h) \<Rightarrow> Inr (decay s, map_option (deref h) (variables s)))"

text \<open>The leaf function of \<open>update\<close> on the arrays themselves, without the store.\<close>

definition ema_value ::
    "'a::{one,plus,minus,times} \<Rightarrow> 'a ndarray \<Rightarrow> 'a ndarray pytree \<Rightarrow> unit
      \<Rightarrow> error + 'a ndarray \<times> unit" where
  "ema_value d ema p u =
     (case p of
        Dict kvs \<Rightarrow> Inl UnsupportedOperand
      | Leaf b \<Rightarrow>
          (case add_arrays (mul_scalar_r ema d) (mul_scalar_l (1 - d) b) of
             Inl e \<Rightarrow> Inl e
           | Inr v \<Rightarrow> Inr (v, u)))"

text \<open>
  The state is valid in a store when its shadow, if it has one, is. Two arrays are
  broadcastable when their shapes can be broadcast together. \<open>blend d a b\<close> is the array
  \<open>a * d + (1 - d) * b\<close> for two arrays of the same shape.
\<close>

definition valid_state :: "'a heap \<Rightarrow> 'a EmaState \<Rightarrow> bool" where
  "valid_state h s \<longleftrightarrow> (case variables s of None \<Rightarrow> True | Some sh \<Rightarrow> valid_tree h sh)"

definition broadcastable :: "'a ndarray \<Rightarrow> 'a ndarray \<Rightarrow> bool" where
  "broadcastable a b \<longleftrightarrow> broadcast_shapes (shape a) (shape b) \<noteq> None"

definition blend :: "'a::{one,plus,minus,times} \<Rightarrow> 'a ndarray \<Rightarrow> 'a ndarray \<Rightarrow> 'a ndarray" where
  "blend d a b = NDArray (shape a) (map2 (\<lambda>x y. x * d + (1 - d) * y) (elems a) (elems b))"

text \<open>
  \<open>update\<close> on the contents of its arguments, without the store: the decay, the contents
  of the shadow and the contents of the new variables.
\<close>

definition update_value ::
    "'a::{zero,one,plus,minus,times} \<Rightarrow> 'a ndarray pytree option \<Rightarrow> 'a ndarray pytree
      \<Rightarrow> error + 'a \<times> 'a ndarray pytree option" where
  "update_value d shadow p =
     (if d = 0 then Inr (d, None)
      else case shadow of
        None \<Rightarrow> Inr (d, None)
      | Some vt \<Rightarrow>
          (if flattens_up_to vt p
           then (case multimap (ema_value d) vt p () of
                   Inl e \<Rightarrow> Inl e
                 | Inr (vt', u) \<Rightarrow> Inr (d, Some vt'))
           else Inl TreeStructureError))"

section \<open>The calls of the training script\<close>

text \<open>
  Python binds positional arguments to the declared parameters one by one and raises a
  TypeError when arguments are left over. \<open>create\<close> is a static method with the
  parameters \<open>decay, variables\<close>; \<open>update\<close> is a method with the parameters
  \<open>self, new_variables\<close>. A call is modelled with the arguments that fill the declared
  parameters and the list of the positional arguments that follow them.
\<close>

definition call_create :: "'a::zero \<Rightarrow> addr pytree \<Rightarrow> addr pytree list \<Rightarrow> error + 'a EmaState" where
  "call_create d vs surplus =
     (if surplus \<noteq> [] then Inl ArgumentCountError else Inr (create d vs))"

definition call_update ::
    "'a::{zero,one,plus,minus,times} EmaState \<Rightarrow> addr pytree \<Rightarrow> addr pytree list \<Rightarrow> 'a heap
      \<Rightarrow> error + 'a EmaState \<times> 'a heap" where
  "call_update self new_variables surplus h =
     (if surplus \<noteq> [] then Inl ArgumentCountError else update self new_variables h)"

text \<open>
  Attribute access on an \<open>EmaState\<close>: the dataclass has the fields \<open>decay\<close> and
  \<open>variables\<close> and the methods \<open>create\<close>, \<open>update\<close> and \<open>replace\<close>.
\<close>

datatype 'a attribute = FloatAttr 'a | TreeAttr "addr pytree option" | MethodAttr

definition EmaState_getattr :: "'a EmaState \<Rightarrow> string \<Rightarrow> error + 'a attribute" where
  "EmaState_getattr s name =
     (if name = ''decay'' then Inr (FloatAttr (decay s))
      else if name = ''variables'' then Inr (TreeAttr (variables s))
      else if name \<in> {''create'', ''update'', ''replace''} then Inr MethodAttr
      else Inl AttributeError)"

text \<open>
  The optimizer of flax: only its \<open>target\<close> (the live parameters) matters here. The rest
  of it, the dynamic loss scale, the batch and the metrics are opaque.
\<close>

record 'o Optimizer =
  target :: "addr pytree"
  opt_state :: 'o

record ('a, 'o, 'd) TrainState =
  step :: int
  optimizer :: "'o Optimizer"
  model_state :: "addr pytree"
  dynamic_scale :: "'d option"
  ema :: "'a EmaState option"

record 'a config =
  half_precision :: bool
  ema_decay :: 'a

text \<open>
  \<open>create_train_state\<close>. The platform of the first local device, the constructor of the
  dynamic scale and \<open>create_optim\<close> come from outside and are parameters.
\<close>

definition create_train_state ::
    "string \<Rightarrow> 'd \<Rightarrow> (addr pytree \<Rightarrow> 'o Optimizer) \<Rightarrow> 'a::zero config \<Rightarrow> addr pytree
      \<Rightarrow> addr pytree \<Rightarrow> error + ('a, 'o, 'd) TrainState" where
  "create_train_state platform new_dynamic_scale create_optim config params mstate =
     (let dscale = (if half_precision config \<and> platform = ''gpu''
                    then Some new_dynamic_scale else None);
          opt = create_optim params
      in case call_create (ema_decay config) (target opt) [mstate] of
           Inl e \<Rightarrow> Inl e
         | Inr e \<Rightarrow>
             Inr \<lparr>step = 0, optimizer = opt, model_state = mstate,
                  dynamic_scale = dscale, ema = Some e\<rparr>)"

text \<open>
  \<open>train_step\<close>. The gradient computation and the optimizer step (everything before the
  EMA update) are the parameter \<open>optimizer_step\<close>, which returns the new optimizer, the
  new model state, the dynamic scale, the metrics and the store.
\<close>

definition train_step ::
    "(('a, 'o, 'd) TrainState \<Rightarrow> 'b \<Rightarrow> 'a heap
        \<Rightarrow> 'o Optimizer \<times> addr pytree \<times> 'd option \<times> 'm \<times> 'a heap)
      \<Rightarrow> ('a::{zero,one,plus,minus,times}, 'o, 'd) TrainState \<Rightarrow> 'b \<Rightarrow> 'a heap
      \<Rightarrow> error + (('a, 'o, 'd) TrainState \<times> 'm) \<times> 'a heap" where
  "train_step optimizer_step state batch h =
     (case optimizer_step state batch h of
        (new_optimizer, new_model_state, dscale, metrics, h1) \<Rightarrow>
          (case (case ema state of
                   None \<Rightarrow> Inr (None, h1)
                 | Some e \<Rightarrow>
                     (case call_update e (target new_optimizer) [new_model_state] h1 of
                        Inl err \<Rightarrow> Inl err
                      | Inr (e', h2) \<Rightarrow> Inr (Some e', h2))) of
             Inl err \<Rightarrow> Inl err
           | Inr (new_ema, h2) \<Rightarrow>
               Inr ((state\<lparr>step := step state + 1, optimizer := new_optimizer,
                            model_state := new_model_state, dynamic_scale := dscale,
                            ema := new_ema\<rparr>, metrics), h2)))"

text \<open>
  \<open>eval_step_ema\<close>. The model's \<open>apply_fn\<close> and \<open>compute_metrics\<close> are parameters.
  \<open>state.ema.params\<close> is evaluated first, then \<open>state.ema.model_state\<close>.
\<close>

definition eval_step_ema ::
    "('a attribute \<Rightarrow> 'a attribute \<Rightarrow> 'b \<Rightarrow> 'l) \<Rightarrow> ('l \<Rightarrow> 'b \<Rightarrow> 'm)
      \<Rightarrow> ('a, 'o, 'd) TrainState \<Rightarrow> 'b \<Rightarrow> error + 'm" where
  "eval_step_ema apply_fn compute_metrics state batch =
     (case ema state of
        None \<Rightarrow> Inl AttributeError
      | Some e \<Rightarrow>
          (case EmaState_getattr e ''params'' of
             Inl err \<Rightarrow> Inl err
           | Inr params \<Rightarrow>
               (case EmaState_getattr e ''model_state'' of
                  Inl err \<Rightarrow> Inl err
                | Inr mstate \<Rightarrow>
                    Inr (compute_metrics (apply_fn params mstate batch) batch))))"

section \<open>Python floats\<close>

text \<open>
  The element arithmetic of the model is abstract; this is the instance the code runs on
  when the leaves are Python floats: IEEE 754 binary64 with rounding to nearest, ties to
  even. A number is \<open>mantissa * 2 ^ exponent\<close>, kept canonical (an odd mantissa, or
  \<open>0 * 2 ^ 0\<close>), so that equal numbers are equal terms. \<open>round64 m e\<close> rounds the exact
  number \<open>m * 2 ^ e\<close> to 53 significant bits. The exponent is not bounded: overflow,
  subnormal numbers, infinities, NaN and the sign of zero are not modelled.
\<close>

datatype binary64 = Binary64 (mantissa: int) (exponent: int)

function bit_count :: "int \<Rightarrow> nat" where
  "bit_count n = (if n \<le> 0 then 0 else Suc (bit_count (n div 2)))"
  by pat_completeness auto
termination
  by (relation "measure nat") auto

function canonical :: "int \<Rightarrow> int \<Rightarrow> binary64" where
  "canonical m e =
     (if m = 0 then Binary64 0 0
      else if even m then canonical (m div 2) (e + 1)
      else Binary64 m e)"
  by pat_completeness auto
termination
  by (relation "measure (\<lambda>(m, e). nat \<bar>m\<bar>)") auto

definition round64 :: "int \<Rightarrow> int \<Rightarrow> binary64" where
  "round64 m e =
     (let n = \<bar>m\<bar>;
          k = bit_count n - 53;
          q = n div 2 ^ k;
          r = n mod 2 ^ k;
          q' = (if 2 ^ k < 2 * r \<or> (2 * r = 2 ^ k \<and> odd q) then q + 1 else q)
      in canonical (sgn m * q') (e + int k))"

instantiation binary64 :: "{zero,one,plus,minus,times}"
begin

definition zero_binary64 :: binary64 where
  "zero_binary64 = Binary64 0 0"

definition one_binary64 :: binary64 where
  "one_binary64 = Binary64 1 0"

definition times_binary64 :: "binary64 \<Rightarrow> binary64 \<Rightarrow> binary64" where
  "times_binary64 a b = round64 (mantissa a * mantissa b) (exponent a + exponent b)"

definition plus_binary64 :: "binary64 \<Rightarrow> binary64 \<Rightarrow> binary64" where
  "plus_binary64 a b =
     (let e = min (exponent a) (exponent b)
      in round64 (mantissa a * 2 ^ nat (exponent a - e) + mantissa b * 2 ^ nat (exponent b - e)) e)"

definition minus_binary64 :: "binary64 \<Rightarrow> binary64 \<Rightarrow> binary64" where
  "minus_binary64 a b =
     (let e = min (exponent a) (exponent b)
      in round64 (mantissa a * 2 ^ nat (exponent a - e) - mantissa b * 2 ^ nat (exponent b - e)) e)"

instance ..

end

text \<open>The rational number a float stands for.\<close>

definition binary64_value :: "binary64 \<Rightarrow> rat" where
  "binary64_value a =
     (if 0 \<le> exponent a then of_int (mantissa a) * 2 ^ nat (exponent a)
      else of_int (mantissa a) / 2 ^ nat (- exponent a))"

section \<open>Dictionaries as objects\<close>

text \<open>
  Above, the dictionaries of a tree are values. To tell a rebuilt dictionary from a shared
  one, here they are objects too: a dictionary object lists its items, and an item refers
  to a tensor or to another dictionary object. A plain Python \<open>dict\<close> can be changed in
  place, which is a change of its entry in the store. \<open>read_tree n dh r\<close> is the tree that
  the reference \<open>r\<close> stands for in the store \<open>dh\<close>, following dictionaries nested at
  most \<open>n\<close> deep (there is no result for a deeper or a cyclic structure). The items of a
  dictionary are listed by ascending key, as before.
\<close>

datatype ref = ArrayRef addr | DictRef addr

type_synonym dict_heap = "(string \<times> ref) list list"

fun read_tree :: "nat \<Rightarrow> dict_heap \<Rightarrow> ref \<Rightarrow> addr pytree option"
  and read_items :: "nat \<Rightarrow> dict_heap \<Rightarrow> (string \<times> ref) list \<Rightarrow> (string \<times> addr pytree) list option"
where
  "read_tree n dh (ArrayRef a) = Some (Leaf a)"
| "read_tree 0 dh (DictRef r) = None"
| "read_tree (Suc n) dh (DictRef r) =
     (if r < length dh then map_option Dict (read_items n dh (dh ! r)) else None)"
| "read_items n dh [] = Some []"
| "read_items n dh ((k, c) # kvs) =
     (case read_tree n dh c of
        None \<Rightarrow> None
      | Some t \<Rightarrow>
          (case read_items n dh kvs of None \<Rightarrow> None | Some ts \<Rightarrow> Some ((k, t) # ts)))"

text \<open>
  \<open>jax.tree_map(f, tree)\<close> on objects: every dictionary of the tree is rebuilt as a new
  object, and \<open>f\<close> is applied to every leaf. With \<open>lambda x: x\<close> a leaf of the result is
  the leaf object of the argument.
\<close>

fun tree_map_objects :: "nat \<Rightarrow> (addr \<Rightarrow> addr) \<Rightarrow> dict_heap \<Rightarrow> ref \<Rightarrow> (ref \<times> dict_heap) option"
  and items_map_objects ::
    "nat \<Rightarrow> (addr \<Rightarrow> addr) \<Rightarrow> dict_heap \<Rightarrow> (string \<times> ref) list
      \<Rightarrow> ((string \<times> ref) list \<times> dict_heap) option"
where
  "tree_map_objects n f dh (ArrayRef a) = Some (ArrayRef (f a), dh)"
| "tree_map_objects 0 f dh (DictRef r) = None"
| "tree_map_objects (Suc n) f dh (DictRef r) =
     (if r < length dh
      then (case items_map_objects n f dh (dh ! r) of
              None \<Rightarrow> None
            | Some (kvs', dh') \<Rightarrow> Some (DictRef (length dh'), dh' @ [kvs']))
      else None)"
| "items_map_objects n f dh [] = Some ([], dh)"
| "items_map_objects n f dh ((k, c) # kvs) =
     (case tree_map_objects n f dh c of
        None \<Rightarrow> None
      | Some (c', dh1) \<Rightarrow>
          (case items_map_objects n f dh1 kvs of
             None \<Rightarrow> None
           | Some (kvs', dh2) \<Rightarrow> Some ((k, c') # kvs', dh2)))"

text \<open>
  \<open>create\<close> on objects: the result is the decay and the reference held by the field
  \<open>variables\<close>. Read through the store, it is \<open>create\<close> above.
\<close>

definition create_objects ::
    "nat \<Rightarrow> 'a::zero \<Rightarrow> ref \<Rightarrow> dict_heap \<Rightarrow> (('a \<times> ref option) \<times> dict_heap) option" where
  "create_objects n d vs dh =
     (if d = 0 then Some ((0, None), dh)
      else case tree_map_objects n (\<lambda>x. x) dh vs of
        None \<Rightarrow> None
      | Some (ema_variables, dh') \<Rightarrow> Some ((d, Some ema_variables), dh'))"

text \<open>
  A later store in which the objects from address \<open>lo\<close> up to the end of \<open>dh'\<close> are as
  they are in \<open>dh'\<close>; older objects may have been changed and further ones allocated.
\<close>

definition unchanged_from :: "dict_heap \<Rightarrow> nat \<Rightarrow> dict_heap \<Rightarrow> bool" where
  "unchanged_from dh' lo dh'' \<longleftrightarrow>
     length dh' \<le> length dh'' \<and> (\<forall>i. lo \<le> i \<and> i < length dh' \<longrightarrow> dh'' ! i = dh' ! i)"

section \<open>Arrays of the same shape\<close>

lemma broadcast_dims_same: "broadcast_dims xs xs = Some xs"
  by (induction xs) auto

lemma broadcast_shapes_same: "broadcast_shapes s s = Some s"
  by (simp add: broadcast_shapes_def broadcast_dims_same)

lemma concat_chunks:
  "k * n \<le> length xs \<Longrightarrow> concat (map (\<lambda>i. take n (drop (i * n) xs)) [0..<k]) = take (k * n) xs"
proof (induction k)
  case 0
  then show ?case by simp
next
  case (Suc k)
  then have "concat (map (\<lambda>i. take n (drop (i * n) xs)) [0..<k]) = take (k * n) xs"
    by simp
  moreover have "Suc k * n = k * n + n" by simp
  ultimately show ?case
    by (simp only: upt_Suc_append [OF le0] map_append concat_append take_add) simp
qed

lemma expand_same: "length xs = prod_list s \<Longrightarrow> expand s s xs = xs"
proof (induction s arbitrary: xs)
  case Nil
  then show ?case by simp
next
  case (Cons t ts)
  have "expand ts ts (take (prod_list ts) (drop (i * prod_list ts) xs))
        = take (prod_list ts) (drop (i * prod_list ts) xs)" if "i < t" for i
  proof -
    have "(i + 1) * prod_list ts \<le> t * prod_list ts"
      using that by (intro mult_right_mono) auto
    then have "length (take (prod_list ts) (drop (i * prod_list ts) xs)) = prod_list ts"
      using Cons.prems by simp
    then show ?thesis by (rule Cons.IH)
  qed
  then have eq: "map (\<lambda>i. expand ts ts (take (prod_list ts) (drop (i * prod_list ts) xs))) [0..<t]
        = map (\<lambda>i. take (prod_list ts) (drop (i * prod_list ts) xs)) [0..<t]"
    by simp
  have "expand (t # ts) (t # ts) xs
        = concat (map (\<lambda>i. take (prod_list ts) (drop (i * prod_list ts) xs)) [0..<t])"
    by (simp only: expand.simps eq refl if_True)
  also have "\<dots> = take (t * prod_list ts) xs"
    using Cons.prems by (intro concat_chunks) simp
  also have "\<dots> = xs"
    using Cons.prems by simp
  finally show ?case .
qed

lemma add_arrays_same_shape:
  "wf_array a \<Longrightarrow> wf_array b \<Longrightarrow> shape a = shape b \<Longrightarrow>
   add_arrays a b = Inr (NDArray (shape a) (map2 (+) (elems a) (elems b)))"
  by (simp add: add_arrays_def broadcast_shapes_same broadcast_to_def expand_same wf_array_def)

section \<open>Trees, their structure and their contents\<close>

lemma deref_simps [simp]:
  "deref h (Leaf a) = Leaf (h ! a)"
  "deref h (Dict kvs) = Dict (map (apsnd (deref h)) kvs)"
  unfolding deref_def by (simp_all add: apsnd_def id_def)

lemma tree_structure_simps [simp]:
  "tree_structure (Leaf a) = Leaf ()"
  "tree_structure (Dict kvs) = Dict (map (apsnd tree_structure) kvs)"
  unfolding tree_structure_def by (simp_all add: apsnd_def id_def)

lemma allocated_simps [simp]:
  "allocated h (Leaf a) \<longleftrightarrow> a < length h \<and> wf_array (h ! a)"
  "allocated h (Dict []) \<longleftrightarrow> True"
  "allocated h (Dict ((k, t) # kvs)) \<longleftrightarrow> allocated h t \<and> allocated h (Dict kvs)"
  unfolding allocated_def by auto

lemma allocated_append: "allocated h t \<Longrightarrow> allocated (h @ new) t"
  unfolding allocated_def by (auto simp: nth_append)

lemma deref_append: "allocated h t \<Longrightarrow> deref (h @ new) t = deref h t"
  unfolding allocated_def deref_def
  by (rule pytree.map_cong) (auto simp: nth_append)

lemma ema_leaf_value:
  "ema_leaf d a p h =
     (case ema_value d (h ! a) (deref h p) () of
        Inl e \<Rightarrow> Inl e
      | Inr (v, u) \<Rightarrow> Inr (length h, h @ [v]))"
  by (cases p) (auto simp: ema_leaf_def ema_value_def alloc_def split: sum.splits)

lemma multimap_refines:
  "allocated h t \<Longrightarrow> allocated h r \<Longrightarrow>
     (case multimap (ema_leaf d) t r h of
        Inl e \<Rightarrow> multimap (ema_value d) (deref h t) (deref h r) () = Inl e
      | Inr (t', h') \<Rightarrow>
          (\<exists>new. h' = h @ new) \<and> (\<forall>c \<in> set_pytree t'. length h \<le> c \<and> c < length h') \<and>
          multimap (ema_value d) (deref h t) (deref h r) () = Inr (deref h' t', ()))"
  "allocated h (Dict kvs) \<Longrightarrow> allocated h (Dict kvs2) \<Longrightarrow>
     (case multimap_items (ema_leaf d) kvs kvs2 h of
        Inl e \<Rightarrow> multimap_items (ema_value d) (map (apsnd (deref h)) kvs)
                   (map (apsnd (deref h)) kvs2) () = Inl e
      | Inr (kvs', h') \<Rightarrow>
          (\<exists>new. h' = h @ new) \<and>
          (\<forall>c \<in> set_pytree (Dict kvs'). length h \<le> c \<and> c < length h') \<and>
          multimap_items (ema_value d) (map (apsnd (deref h)) kvs)
            (map (apsnd (deref h)) kvs2) ()
            = Inr (map (apsnd (deref h')) kvs', ()))"
proof (induction "ema_leaf d" t r h and "ema_leaf d" kvs kvs2 h
    rule: multimap_multimap_items.induct)
  case (1 a r h)
  then show ?case
    by (auto simp: ema_leaf_value split: sum.splits)
next
  case (2 kvs b h)
  then show ?case by simp
next
  case (3 kvs kvs2 h)
  then show ?case
    by (auto split: sum.splits)
next
  case (4 h)
  then show ?case by simp
next
  case (5 k t kvs k2 t2 kvs2 h)
  show ?case
  proof (cases "k = k2")
    case False
    then show ?thesis by simp
  next
    case True
    from "5.prems" have vt: "allocated h t" "allocated h t2"
      and vk: "allocated h (Dict kvs)" "allocated h (Dict kvs2)"
      by simp_all
    show ?thesis
    proof (cases "multimap (ema_leaf d) t t2 h")
      case (Inl e)
      with "5.hyps"(1) [OF _ vt] True show ?thesis by simp
    next
      case (Inr res)
      obtain t' h1 where res: "res = (t', h1)" by (cases res)
      with "5.hyps"(1) [OF _ vt] True Inr obtain new1 where
        h1: "h1 = h @ new1" and
        fresh1: "\<forall>c \<in> set_pytree t'. length h \<le> c \<and> c < length h1" and
        pure1: "multimap (ema_value d) (deref h t) (deref h t2) () = Inr (deref h1 t', ())"
        by auto
      have vk1: "allocated h1 (Dict kvs)" "allocated h1 (Dict kvs2)"
        using vk h1 by (simp_all add: allocated_append)
      have eq1: "map (apsnd (deref h1)) kvs = map (apsnd (deref h)) kvs"
        "map (apsnd (deref h1)) kvs2 = map (apsnd (deref h)) kvs2"
        using deref_append [OF vk(1), of new1] deref_append [OF vk(2), of new1] h1
        by simp_all
      note IH = "5.hyps"(2) [OF _ Inr res [symmetric] vk1, unfolded eq1]
      show ?thesis
      proof (cases "multimap_items (ema_leaf d) kvs kvs2 h1")
        case (Inl e)
        with IH True Inr res pure1 show ?thesis by simp
      next
        case (Inr res2)
        obtain kvs' h2 where res2: "res2 = (kvs', h2)" by (cases res2)
        with IH True Inr obtain new2 where
          h2: "h2 = h1 @ new2" and
          fresh2: "\<forall>c \<in> set_pytree (Dict kvs'). length h1 \<le> c \<and> c < length h2" and
          pure2: "multimap_items (ema_value d) (map (apsnd (deref h)) kvs)
            (map (apsnd (deref h)) kvs2) () = Inr (map (apsnd (deref h2)) kvs', ())"
          by auto
        have "deref h2 t' = deref h1 t'"
          unfolding deref_def h2 using fresh1
          by (intro pytree.map_cong) (auto simp: nth_append)
        moreover have "\<forall>c \<in> set_pytree (Dict kvs'). length h \<le> c \<and> c < length h2"
          using fresh2 h1 by fastforce
        moreover have "\<forall>c \<in> set_pytree t'. length h \<le> c \<and> c < length h2"
          using fresh1 h2 by fastforce
        moreover have "h2 = h @ (new1 @ new2)"
          using h1 h2 by simp
        ultimately show ?thesis
          using True \<open>multimap (ema_leaf d) t t2 h = Inr res\<close> res Inr res2 pure1 pure2
          by (simp del: append_assoc)
      qed
    qed
  qed
next
  case (6 x kvs2 h)
  then show ?case by simp
next
  case (7 x kvs h)
  then show ?case by simp
qed

lemma tree_get_Dict_Cons:
  "tree_get (Dict ((k, t) # kvs)) (k' # ks) =
     (if k' = k then tree_get t ks else tree_get (Dict kvs) (k' # ks))"
  by simp

lemma tree_get_Dict_Nil [simp]: "tree_get (Dict kvs) [] = None"
  by simp

lemma tree_get_Dict_empty [simp]: "tree_get (Dict []) ks = None"
  by (cases ks) auto

lemma same_structure_leaves:
  fixes t :: "'l pytree" and r :: "'m pytree"
    and kvs :: "(string \<times> 'l pytree) list" and kvs2 :: "(string \<times> 'm pytree) list"
  shows "tree_structure r = tree_structure t \<Longrightarrow> length (tree_leaves r) = length (tree_leaves t)"
    and "map (apsnd tree_structure) kvs2 = map (apsnd tree_structure) kvs \<Longrightarrow>
     length (items_leaves kvs2) = length (items_leaves kvs)"
proof (induction t r and kvs kvs2 rule: flattens_up_to_items_flatten_up_to.induct)
  case (1 a r)
  then show ?case by (cases r) auto
qed auto

lemma same_structure_flattens:
  fixes t :: "'l pytree" and r :: "'m pytree"
    and kvs :: "(string \<times> 'l pytree) list" and kvs2 :: "(string \<times> 'm pytree) list"
  shows "tree_structure r = tree_structure t \<Longrightarrow> flattens_up_to t r"
    and "map (apsnd tree_structure) kvs2 = map (apsnd tree_structure) kvs \<Longrightarrow>
     items_flatten_up_to kvs kvs2"
  by (induction t r and kvs kvs2 rule: flattens_up_to_items_flatten_up_to.induct) auto

lemma flattens_up_to_map:
  fixes t :: "'l pytree" and r :: "'m pytree"
    and kvs :: "(string \<times> 'l pytree) list" and kvs2 :: "(string \<times> 'm pytree) list"
  shows "flattens_up_to (map_pytree f t) (map_pytree g r) = flattens_up_to t r"
    and "items_flatten_up_to (map (apsnd (map_pytree f)) kvs) (map (apsnd (map_pytree g)) kvs2)
     = items_flatten_up_to kvs kvs2"
  by (induction t r and kvs kvs2 rule: flattens_up_to_items_flatten_up_to.induct)
     (auto simp: apsnd_def id_def)

lemma ema_value_same_shape:
  "wf_array a \<Longrightarrow> wf_array b \<Longrightarrow> shape b = shape a \<Longrightarrow>
   ema_value d a (Leaf b) u = Inr (blend d a b, u)"
  by (simp add: ema_value_def blend_def add_arrays_same_shape mul_scalar_r_def mul_scalar_l_def
      wf_array_def zip_map_map split_def)

lemma multimap_value_formula:
  "tree_structure r = tree_structure t \<Longrightarrow>
   map shape (tree_leaves r) = map shape (tree_leaves t) \<Longrightarrow>
   (\<forall>a \<in> set_pytree t \<union> set_pytree r. wf_array a) \<Longrightarrow>
   \<exists>t'. multimap (ema_value d) t r () = Inr (t', ()) \<and>
        tree_structure t' = tree_structure t \<and>
        (\<forall>ks a b. tree_get t ks = Some a \<longrightarrow> tree_get r ks = Some b \<longrightarrow>
           tree_get t' ks = Some (blend d a b))"
  "map (apsnd tree_structure) kvs2 = map (apsnd tree_structure) kvs \<Longrightarrow>
   map shape (items_leaves kvs2) = map shape (items_leaves kvs) \<Longrightarrow>
   (\<forall>a \<in> set_pytree (Dict kvs) \<union> set_pytree (Dict kvs2). wf_array a) \<Longrightarrow>
   \<exists>kvs'. multimap_items (ema_value d) kvs kvs2 () = Inr (kvs', ()) \<and>
        map (apsnd tree_structure) kvs' = map (apsnd tree_structure) kvs \<and>
        (\<forall>ks a b. tree_get (Dict kvs) ks = Some a \<longrightarrow> tree_get (Dict kvs2) ks = Some b \<longrightarrow>
           tree_get (Dict kvs') ks = Some (blend d a b))"
proof (induction t r and kvs kvs2 rule: flattens_up_to_items_flatten_up_to.induct)
  case (1 a r)
  then obtain b where r: "r = Leaf b" by (cases r) auto
  with 1 have "ema_value d a (Leaf b) () = Inr (blend d a b, ())"
    by (intro ema_value_same_shape) auto
  with r show ?case
    by (auto elim: tree_get.elims)
next
  case (2 kvs b)
  then show ?case by simp
next
  case (3 kvs kvs2)
  then obtain kvs' where
    "multimap_items (ema_value d) kvs kvs2 () = Inr (kvs', ())"
    "map (apsnd tree_structure) kvs' = map (apsnd tree_structure) kvs"
    "\<forall>ks a b. tree_get (Dict kvs) ks = Some a \<longrightarrow> tree_get (Dict kvs2) ks = Some b \<longrightarrow>
           tree_get (Dict kvs') ks = Some (blend d a b)"
    by auto
  then show ?case by simp
next
  case 4
  then show ?case by simp
next
  case (5 k t kvs k2 t2 kvs2)
  from "5.prems"(1) have k: "k2 = k" and st: "tree_structure t2 = tree_structure t"
    and sk: "map (apsnd tree_structure) kvs2 = map (apsnd tree_structure) kvs"
    by simp_all
  from "5.prems"(2) same_structure_leaves(1) [OF st]
  have sh: "map shape (tree_leaves t2) = map shape (tree_leaves t)"
    and shk: "map shape (items_leaves kvs2) = map shape (items_leaves kvs)"
    by simp_all
  from "5.prems"(3) have wt: "\<forall>a \<in> set_pytree t \<union> set_pytree t2. wf_array a"
    and wk: "\<forall>a \<in> set_pytree (Dict kvs) \<union> set_pytree (Dict kvs2). wf_array a"
    by auto
  from "5.IH"(1) [OF st sh wt] obtain t' where
    t': "multimap (ema_value d) t t2 () = Inr (t', ())"
      "tree_structure t' = tree_structure t"
      "\<And>ks a b. tree_get t ks = Some a \<Longrightarrow> tree_get t2 ks = Some b \<Longrightarrow>
           tree_get t' ks = Some (blend d a b)"
    by blast
  from "5.IH"(2) [OF sk shk wk] obtain kvs' where
    kvs': "multimap_items (ema_value d) kvs kvs2 () = Inr (kvs', ())"
      "map (apsnd tree_structure) kvs' = map (apsnd tree_structure) kvs"
      "\<And>ks a b. tree_get (Dict kvs) ks = Some a \<Longrightarrow> tree_get (Dict kvs2) ks = Some b \<Longrightarrow>
           tree_get (Dict kvs') ks = Some (blend d a b)"
    by blast
  have "tree_get (Dict ((k, t') # kvs')) ks = Some (blend d a b)"
    if "tree_get (Dict ((k, t) # kvs)) ks = Some a" "tree_get (Dict ((k2, t2) # kvs2)) ks = Some b"
    for ks a b
  proof (cases ks)
    case Nil
    with that show ?thesis by simp
  next
    case (Cons k' ks')
    show ?thesis
    proof (cases "k' = k")
      case True
      with that Cons k t'(3) [of ks' a b] show ?thesis by simp
    next
      case False
      with that Cons k kvs'(3) [of ks a b] show ?thesis by simp
    qed
  qed
  with t'(1,2) kvs'(1,2) k show ?case by simp
next
  case (6 x kvs2)
  then show ?case by simp
next
  case (7 x kvs)
  then show ?case by simp
qed

lemma map_prod_apsnd: "map_prod id f = apsnd f" "map_prod (\<lambda>a. a) f = apsnd f"
  by (simp_all add: apsnd_def id_def)

lemma tree_get_map: "tree_get (map_pytree f t) ks = map_option f (tree_get t ks)"
proof (induction t ks rule: tree_get.induct)
  case (2 kvs k ks)
  have "map_of (map (apsnd (map_pytree f)) kvs) k = map_option (map_pytree f) (map_of kvs k)"
    by (induction kvs) auto
  with 2 show ?case
    by (auto simp: map_prod_apsnd split: option.splits)
qed auto

lemma tree_leaves_map:
  "tree_leaves (map_pytree f t) = map f (tree_leaves t)"
  "items_leaves (map (apsnd (map_pytree f)) kvs) = map f (items_leaves kvs)"
  by (induction t and kvs rule: tree_leaves_items_leaves.induct) (auto simp: map_prod_apsnd)

lemma tree_structure_map [simp]: "tree_structure (map_pytree f t) = tree_structure t"
  by (simp add: tree_structure_def pytree.map_comp comp_def)

lemma observe_update:
  assumes "\<And>sh. variables s = Some sh \<Longrightarrow> allocated h sh" and "allocated h p"
  shows "observe (update s p h) = update_value (decay s) (map_option (deref h) (variables s)) (deref h p)"
proof (cases "decay s = 0")
  case True
  then show ?thesis
    by (simp add: observe_def update_def update_value_def)
next
  case False
  show ?thesis
  proof (cases "variables s")
    case None
    with False show ?thesis
      by (simp add: observe_def update_def update_value_def)
  next
    case (Some sh)
    with assms have v: "allocated h sh" by simp
    have fl: "flattens_up_to (deref h sh) (deref h p) = flattens_up_to sh p"
      by (simp add: deref_def flattens_up_to_map)
    from multimap_refines(1) [OF v assms(2), of "decay s"] False Some fl show ?thesis
      by (auto simp: observe_def update_def update_value_def tree_multimap_def split: sum.splits)
  qed
qed

lemma ema_value_success:
  "ema_value d a r u = Inr res \<Longrightarrow> \<exists>b. r = Leaf b \<and> broadcastable a b"
  by (cases r)
     (auto simp: ema_value_def add_arrays_def mul_scalar_r_def mul_scalar_l_def broadcastable_def
       split: option.splits sum.splits)

lemma multimap_value_success:
  "multimap (ema_value d) t r u = Inr (t', u') \<Longrightarrow>
     tree_structure r = tree_structure t \<and> list_all2 broadcastable (tree_leaves t) (tree_leaves r)"
  "multimap_items (ema_value d) kvs kvs2 u = Inr (kvs', u') \<Longrightarrow>
     map (apsnd tree_structure) kvs2 = map (apsnd tree_structure) kvs \<and>
     list_all2 broadcastable (items_leaves kvs) (items_leaves kvs2)"
proof (induction "ema_value d" t r u and "ema_value d" kvs kvs2 u
    arbitrary: t' u' and kvs' u' rule: multimap_multimap_items.induct)
  case (1 a r h)
  then show ?case
    by (auto split: sum.splits dest: ema_value_success)
next
  case (3 kvs kvs2 h)
  then show ?case
    by (auto split: sum.splits)
next
  case (5 k t kvs k2 t2 kvs2 h)
  from "5.prems" have k: "k = k2"
    by (auto split: if_splits)
  with "5.prems" obtain t1 h1 where m1: "multimap (ema_value d) t t2 h = Inr (t1, h1)"
    by (auto split: sum.splits)
  with "5.prems" k obtain kvs1 h2 where
    m2: "multimap_items (ema_value d) kvs kvs2 h1 = Inr (kvs1, h2)"
    by (auto split: sum.splits)
  from "5.hyps"(1) [OF _ m1] "5.hyps"(2) [OF _ m1 refl m2] k show ?case
    by (auto intro: list_all2_appendI)
qed auto

lemma items_flatten_keys:
  fixes kvs :: "(string \<times> 'l pytree) list" and kvs2 :: "(string \<times> 'm pytree) list"
  shows "items_flatten_up_to kvs kvs2 \<Longrightarrow> map fst kvs2 = map fst kvs"
proof (induction kvs arbitrary: kvs2)
  case Nil
  then show ?case by (cases kvs2) auto
next
  case (Cons x kvs)
  then show ?case by (cases kvs2; cases x) auto
qed

lemma ema_value_broadcastable:
  "broadcastable a b \<Longrightarrow> \<exists>v. ema_value d a (Leaf b) u = Inr (v, u)"
  by (auto simp: ema_value_def add_arrays_def mul_scalar_r_def mul_scalar_l_def broadcastable_def
      split: option.splits)

lemma multimap_value_succeeds:
  "tree_structure r = tree_structure t \<Longrightarrow>
   list_all2 broadcastable (tree_leaves t) (tree_leaves r) \<Longrightarrow>
   \<exists>t'. multimap (ema_value d) t r u = Inr (t', u)"
  "map (apsnd tree_structure) kvs2 = map (apsnd tree_structure) kvs \<Longrightarrow>
   list_all2 broadcastable (items_leaves kvs) (items_leaves kvs2) \<Longrightarrow>
   \<exists>kvs'. multimap_items (ema_value d) kvs kvs2 u = Inr (kvs', u)"
proof (induction t r and kvs kvs2 rule: flattens_up_to_items_flatten_up_to.induct)
  case (1 a r)
  then obtain b where r: "r = Leaf b" by (cases r) auto
  with 1 have "broadcastable a b" by simp
  from ema_value_broadcastable [OF this, of d u] r show ?case by auto
next
  case (5 k t kvs k2 t2 kvs2)
  from "5.prems"(1) have k: "k2 = k" and st: "tree_structure t2 = tree_structure t"
    and sk: "map (apsnd tree_structure) kvs2 = map (apsnd tree_structure) kvs"
    by simp_all
  from "5.prems"(2) same_structure_leaves(1) [OF st]
  have b1: "list_all2 broadcastable (tree_leaves t) (tree_leaves t2)"
    and b2: "list_all2 broadcastable (items_leaves kvs) (items_leaves kvs2)"
    by (simp_all add: list_all2_append)
  from "5.IH"(1) [OF st b1] "5.IH"(2) [OF sk b2] k show ?case by auto
qed auto

lemma multimap_value_self:
  "(\<forall>a \<in> set_pytree t. wf_array a) \<Longrightarrow>
     multimap (ema_value d) t t u = Inr (map_pytree (\<lambda>a. blend d a a) t, u)"
  "(\<forall>a \<in> set_pytree (Dict kvs). wf_array a) \<Longrightarrow>
     multimap_items (ema_value d) kvs kvs u
       = Inr (map (apsnd (map_pytree (\<lambda>a. blend d a a))) kvs, u)"
proof (induction t and kvs rule: tree_leaves_items_leaves.induct)
  case (1 a)
  then show ?case
    by (simp add: ema_value_same_shape)
next
  case (2 kvs)
  then show ?case
    by (simp add: map_prod_apsnd)
next
  case 3
  then show ?case by simp
next
  case (4 k t kvs)
  then show ?case by simp
qed

section \<open>Broadcasting\<close>

lemma fits_replicate: "fits (replicate (length ys) 1) ys"
  by (simp add: list_all2_conv_all_nth)

lemma map2_replicate_left:
  "map2 (\<lambda>m n. if m = 1 then n else m) (replicate (length ys) (1::nat)) ys = ys"
  by (induction ys) auto

lemma map2_replicate_right:
  "map2 (\<lambda>m n. if m = 1 then n else m) xs (replicate (length xs) (1::nat)) = xs"
  by (induction xs) auto

lemma broadcast_dims_compatible:
  "broadcast_dims xs ys \<noteq> None \<longleftrightarrow> list_all (\<lambda>(m, n). m = n \<or> m = 1 \<or> n = 1) (zip xs ys)"
  by (induction xs ys rule: broadcast_dims.induct) auto

lemma broadcast_dims_result:
  "broadcast_dims xs ys = Some zs \<Longrightarrow>
     length zs = max (length xs) (length ys) \<and>
     zs = map2 (\<lambda>m n. if m = 1 then n else m)
            (xs @ replicate (max (length xs) (length ys) - length xs) 1)
            (ys @ replicate (max (length xs) (length ys) - length ys) 1) \<and>
     fits (xs @ replicate (max (length xs) (length ys) - length xs) 1) zs \<and>
     fits (ys @ replicate (max (length xs) (length ys) - length ys) 1) zs"
proof (induction xs ys arbitrary: zs rule: broadcast_dims.induct)
  case (1 ys)
  then show ?case
    using fits_replicate [of ys] map2_replicate_left [of ys]
    by (simp add: list_all2_same)
next
  case (2 x xs)
  then show ?case
    using fits_replicate [of "x # xs"] map2_replicate_right [of "x # xs"]
    by (simp add: list_all2_same)
next
  case (3 x xs y ys)
  then show ?case
    by (auto split: if_splits)
qed

lemma length_concat_chunks:
  "(\<forall>j < k. length (g j) = L) \<Longrightarrow> length (concat (map g [0..<k])) = k * L"
  by (induction k) auto

lemma nth_concat_chunks:
  "(\<forall>j < k. length (g j) = L) \<Longrightarrow> i < k \<Longrightarrow> r < L \<Longrightarrow>
     concat (map g [0..<k]) ! (i * L + r) = g i ! r"
proof (induction k)
  case 0
  then show ?case by simp
next
  case (Suc k)
  have len: "length (concat (map g [0..<k])) = k * L"
    using Suc.prems(1) by (intro length_concat_chunks) auto
  show ?case
  proof (cases "i < k")
    case True
    then have "(i + 1) * L \<le> k * L"
      by (intro mult_right_mono) auto
    with Suc.prems(3) have "i * L + r < k * L" by simp
    with Suc True len show ?thesis
      by (simp add: nth_append)
  next
    case False
    with Suc.prems(2) have "i = k" by simp
    with len show ?thesis
      by (simp add: nth_append)
  qed
qed

lemma ravel_less: "list_all2 (<) idx t \<Longrightarrow> ravel t idx < prod_list t"
proof (induction idx t rule: list_all2_induct)
  case Nil
  then show ?case by simp
next
  case (Cons i idx n t)
  have "i * prod_list t + ravel t idx < (i + 1) * prod_list t"
    using Cons.IH by simp
  also have "\<dots> \<le> n * prod_list t"
    using Cons.hyps(1) by (intro mult_right_mono) auto
  finally show ?case by simp
qed

lemma expand_length:
  "fits s t \<Longrightarrow> length xs = prod_list s \<Longrightarrow> length (expand t s xs) = prod_list t"
proof (induction s t arbitrary: xs rule: list_all2_induct)
  case Nil
  then show ?case by simp
next
  case (Cons n s m t)
  show ?case
  proof (cases "n = m")
    case True
    have "length (expand t s (take (prod_list s) (drop (j * prod_list s) xs))) = prod_list t"
      if "j < m" for j
    proof -
      have "(j + 1) * prod_list s \<le> m * prod_list s"
        using that by (intro mult_right_mono) auto
      then have "length (take (prod_list s) (drop (j * prod_list s) xs)) = prod_list s"
        using Cons.prems True by simp
      then show ?thesis by (rule Cons.IH)
    qed
    then have "length (concat (map (\<lambda>j. expand t s (take (prod_list s) (drop (j * prod_list s) xs))) [0..<m]))
        = m * prod_list t"
      by (intro length_concat_chunks) auto
    with True show ?thesis by simp
  next
    case False
    with Cons.hyps(1) have n: "n = 1" by simp
    with Cons.prems have "length (expand t s xs) = prod_list t"
      by (intro Cons.IH) simp
    with False show ?thesis
      by (simp add: length_concat sum_list_replicate)
  qed
qed

lemma clip_in_bounds:
  "fits s t \<Longrightarrow> list_all2 (<) idx t \<Longrightarrow> list_all2 (<) (clip s idx) s"
proof (induction s t arbitrary: idx rule: list_all2_induct)
  case Nil
  then show ?case by simp
next
  case (Cons n s m t)
  then show ?case
    by (cases idx) auto
qed

lemma expand_nth:
  "fits s t \<Longrightarrow> length xs = prod_list s \<Longrightarrow> list_all2 (<) idx t \<Longrightarrow>
     expand t s xs ! ravel t idx = xs ! ravel s (clip s idx)"
proof (induction s t arbitrary: xs idx rule: list_all2_induct)
  case Nil
  then show ?case by simp
next
  case (Cons n s m t)
  from Cons.prems(2) obtain i js where idx: "idx = i # js" and i: "i < m"
    and js: "list_all2 (<) js t"
    by (cases idx) auto
  have r: "ravel t js < prod_list t"
    using js by (rule ravel_less)
  have rs: "ravel s (clip s js) < prod_list s"
    using clip_in_bounds [OF Cons.hyps(2) js] by (rule ravel_less)
  show ?case
  proof (cases "n = m")
    case True
    let ?chunk = "\<lambda>j. take (prod_list s) (drop (j * prod_list s) xs)"
    have chunk_len: "length (?chunk j) = prod_list s" if "j < m" for j
    proof -
      have "(j + 1) * prod_list s \<le> m * prod_list s"
        using that by (intro mult_right_mono) auto
      then show ?thesis
        using Cons.prems(1) True by simp
    qed
    have len: "\<forall>j < m. length (expand t s (?chunk j)) = prod_list t"
      using chunk_len Cons.hyps(2) by (simp add: expand_length)
    have "expand (m # t) (n # s) xs ! ravel (m # t) idx
        = concat (map (\<lambda>j. expand t s (?chunk j)) [0..<m]) ! (i * prod_list t + ravel t js)"
      using True idx by simp
    also have "\<dots> = expand t s (?chunk i) ! ravel t js"
      using len i r by (rule nth_concat_chunks)
    also have "\<dots> = ?chunk i ! ravel s (clip s js)"
      using chunk_len [OF i] js by (rule Cons.IH)
    also have "\<dots> = xs ! (i * prod_list s + ravel s (clip s js))"
    proof -
      have "i * prod_list s \<le> m * prod_list s"
        using i by (intro mult_right_mono) auto
      then have "i * prod_list s \<le> length xs"
        using Cons.prems(1) True by simp
      with rs show ?thesis by simp
    qed
    also have "\<dots> = xs ! ravel (n # s) (clip (n # s) idx)"
      using idx i True by auto
    finally show ?thesis .
  next
    case False
    with Cons.hyps(1) have n: "n = 1" by simp
    with Cons.prems(1) have lx: "length xs = prod_list s" by simp
    have le: "length (expand t s xs) = prod_list t"
      using Cons.hyps(2) lx by (rule expand_length)
    have "concat (replicate m (expand t s xs)) = concat (map (\<lambda>j. expand t s xs) [0..<m])"
      by (simp add: map_replicate_const)
    then have "expand (m # t) (n # s) xs ! ravel (m # t) idx
        = concat (map (\<lambda>j. expand t s xs) [0..<m]) ! (i * prod_list t + ravel t js)"
      using False idx by simp
    also have "\<dots> = expand t s xs ! ravel t js"
      using le i r by (intro nth_concat_chunks) auto
    also have "\<dots> = xs ! ravel s (clip s js)"
      using lx js by (rule Cons.IH)
    also have "\<dots> = xs ! ravel (n # s) (clip (n # s) idx)"
      using idx n by simp
    finally show ?thesis .
  qed
qed

lemma prod_list_pad_shape [simp]: "prod_list (pad_shape k s) = prod_list s"
  by (simp add: pad_shape_def)

lemma broadcastable_compatible:
  "broadcastable a b \<longleftrightarrow> shapes_compatible (shape a) (shape b)"
  using broadcast_dims_compatible [of "rev (shape a)" "rev (shape b)"]
  by (auto simp: broadcastable_def broadcast_shapes_def shapes_compatible_def)

lemma broadcast_shapes_result:
  assumes "broadcast_shapes s1 s2 = Some t"
  shows "t = broadcast_result s1 s2" and "length t = max (length s1) (length s2)"
    and "fits (pad_shape (length t) s1) t" and "fits (pad_shape (length t) s2) t"
proof -
  from assms obtain zs where zs: "broadcast_dims (rev s1) (rev s2) = Some zs" and t: "t = rev zs"
    by (auto simp: broadcast_shapes_def)
  let ?k = "max (length s1) (length s2)"
  let ?a = "rev s1 @ replicate (?k - length s1) 1"
  let ?b = "rev s2 @ replicate (?k - length s2) 1"
  from broadcast_dims_result [OF zs, unfolded length_rev] have len: "length zs = ?k"
    and eq: "zs = map2 (\<lambda>m n. if m = 1 then n else m) ?a ?b"
    and fa: "fits ?a zs" and fb: "fits ?b zs"
    by blast+
  have pa: "pad_shape ?k s1 = rev ?a" and pb: "pad_shape ?k s2 = rev ?b"
    by (simp_all add: pad_shape_def)
  show l: "length t = ?k"
    using len t by simp
  have "length ?a = length ?b" by auto
  then have "rev (map2 (\<lambda>m n. if m = 1 then n else m) ?a ?b)
      = map2 (\<lambda>m n. if m = 1 then n else m) (rev ?a) (rev ?b)"
    by (simp only: rev_map zip_rev)
  with eq t show "t = broadcast_result s1 s2"
    by (simp only: broadcast_result_def Let_def pa pb)
  have "fits (rev ?a) (rev zs)" "fits (rev ?b) (rev zs)"
    using fa fb by (simp_all only: list_all2_rev)
  then show "fits (pad_shape (length t) s1) t" "fits (pad_shape (length t) s2) t"
    using l by (simp_all only: pa pb t)
qed

lemma broadcast_to_spec:
  assumes "fits (pad_shape (length t) (shape a)) t" and "wf_array a"
  shows "length (elems (broadcast_to t a)) = prod_list t"
    and "in_bounds t idx \<Longrightarrow> elems (broadcast_to t a) ! ravel t idx = broadcast_element a t idx"
    and "in_bounds t idx \<Longrightarrow>
      ravel (pad_shape (length t) (shape a)) (clip (pad_shape (length t) (shape a)) idx)
        < length (elems a)"
proof -
  have len: "length (elems a) = prod_list (pad_shape (length t) (shape a))"
    using assms(2) by (simp add: wf_array_def)
  show "length (elems (broadcast_to t a)) = prod_list t"
    using expand_length [OF assms(1) len] by (simp add: broadcast_to_def pad_shape_def)
  show "elems (broadcast_to t a) ! ravel t idx = broadcast_element a t idx" if "in_bounds t idx"
    using expand_nth [OF assms(1) len, of idx] that
    by (simp add: broadcast_to_def pad_shape_def broadcast_element_def in_bounds_def Let_def)
  show "ravel (pad_shape (length t) (shape a)) (clip (pad_shape (length t) (shape a)) idx)
        < length (elems a)" if "in_bounds t idx"
    using ravel_less [OF clip_in_bounds [OF assms(1)], of idx] that len
    by (simp add: in_bounds_def)
qed

lemma ema_value_spec:
  assumes "wf_array a" and "wf_array b" and "ema_value d a (Leaf b) u = Inr (v, u')"
  shows "shape v = broadcast_result (shape a) (shape b)"
    and "length (elems v) = prod_list (shape v)"
    and "in_bounds (shape v) idx \<Longrightarrow>
      elems v ! ravel (shape v) idx
        = broadcast_element a (shape v) idx * d + (1 - d) * broadcast_element b (shape v) idx"
proof -
  let ?a = "mul_scalar_r a d" and ?b = "mul_scalar_l (1 - d) b"
  from assms(3) obtain t where t: "broadcast_shapes (shape a) (shape b) = Some t"
    and v: "v = NDArray t (map2 (+) (elems (broadcast_to t ?a)) (elems (broadcast_to t ?b)))"
    by (auto simp: ema_value_def add_arrays_def mul_scalar_r_def mul_scalar_l_def
        split: option.splits)
  have wa: "wf_array ?a" "shape ?a = shape a" and wb: "wf_array ?b" "shape ?b = shape b"
    using assms(1,2) by (simp_all add: wf_array_def mul_scalar_r_def mul_scalar_l_def)
  note res = broadcast_shapes_result [OF t]
  have fa: "fits (pad_shape (length t) (shape ?a)) t" and fb: "fits (pad_shape (length t) (shape ?b)) t"
    using res(3,4) wa(2) wb(2) by simp_all
  note sa = broadcast_to_spec [OF fa wa(1)] and sb = broadcast_to_spec [OF fb wb(1)]
  show "shape v = broadcast_result (shape a) (shape b)"
    using v res(1) by simp
  show "length (elems v) = prod_list (shape v)"
    using v sa(1) sb(1) by simp
  show "elems v ! ravel (shape v) idx
        = broadcast_element a (shape v) idx * d + (1 - d) * broadcast_element b (shape v) idx"
    if "in_bounds (shape v) idx"
  proof -
    from that v have ib: "in_bounds t idx" by simp
    then have lt: "ravel t idx < prod_list t"
      by (simp add: in_bounds_def ravel_less)
    have "elems v ! ravel t idx
        = elems (broadcast_to t ?a) ! ravel t idx + elems (broadcast_to t ?b) ! ravel t idx"
      using v lt sa(1) sb(1) by simp
    also have "\<dots> = broadcast_element ?a t idx + broadcast_element ?b t idx"
      using sa(2) [OF ib] sb(2) [OF ib] by simp
    also have "broadcast_element ?a t idx = broadcast_element a t idx * d"
      using sa(3) [OF ib] wa(2)
      by (simp add: broadcast_element_def mul_scalar_r_def Let_def)
    also have "broadcast_element ?b t idx = (1 - d) * broadcast_element b t idx"
      using sb(3) [OF ib] wb(2)
      by (simp add: broadcast_element_def mul_scalar_l_def Let_def)
    finally show ?thesis
      using v by simp
  qed
qed

section \<open>Trees on success\<close>

lemma items_flatten_map_of:
  fixes kvs :: "(string \<times> 'l pytree) list" and kvs2 :: "(string \<times> 'm pytree) list"
  shows "items_flatten_up_to kvs kvs2 \<Longrightarrow> map_of kvs k = Some t \<Longrightarrow> map_of kvs2 k = Some r \<Longrightarrow>
     flattens_up_to t r"
proof (induction kvs arbitrary: kvs2)
  case Nil
  then show ?case by simp
next
  case (Cons x kvs)
  then show ?case
    by (cases kvs2; cases x) (auto split: if_splits)
qed

lemma flattens_subtree_keys:
  fixes t :: "'l pytree" and r :: "'m pytree"
  shows "flattens_up_to t r \<Longrightarrow> subtree t ks = Some (Dict kvs) \<Longrightarrow>
     subtree r ks = Some (Dict kvs2) \<Longrightarrow> map fst kvs2 = map fst kvs"
proof (induction ks arbitrary: t r)
  case Nil
  then show ?case
    by (auto dest: items_flatten_keys)
next
  case (Cons k ks)
  from Cons.prems(2) obtain kt t1 where t: "t = Dict kt" and t1: "map_of kt k = Some t1"
    and s1: "subtree t1 ks = Some (Dict kvs)"
    by (cases t) (auto split: option.splits)
  from Cons.prems(3) obtain kr r1 where r: "r = Dict kr" and r1: "map_of kr k = Some r1"
    and s2: "subtree r1 ks = Some (Dict kvs2)"
    by (cases r) (auto split: option.splits)
  from Cons.prems(1) t r have "items_flatten_up_to kt kr" by simp
  then have "flattens_up_to t1 r1"
    using t1 r1 by (rule items_flatten_map_of)
  then show ?case
    using s1 s2 by (rule Cons.IH)
qed

lemma multimap_value_get:
  "multimap (ema_value d) t r u = Inr (t', u') \<Longrightarrow>
     tree_structure t' = tree_structure t \<and>
     (\<forall>ks a b. tree_get t ks = Some a \<longrightarrow> tree_get r ks = Some b \<longrightarrow>
        (\<exists>v. tree_get t' ks = Some v \<and> ema_value d a (Leaf b) () = Inr (v, ())))"
  "multimap_items (ema_value d) kvs kvs2 u = Inr (kvs', u') \<Longrightarrow>
     map (apsnd tree_structure) kvs' = map (apsnd tree_structure) kvs \<and>
     (\<forall>ks a b. tree_get (Dict kvs) ks = Some a \<longrightarrow> tree_get (Dict kvs2) ks = Some b \<longrightarrow>
        (\<exists>v. tree_get (Dict kvs') ks = Some v \<and> ema_value d a (Leaf b) () = Inr (v, ())))"
proof (induction "ema_value d" t r u and "ema_value d" kvs kvs2 u
    arbitrary: t' u' and kvs' u' rule: multimap_multimap_items.induct)
  case (1 a r h)
  then obtain v where v: "ema_value d a r h = Inr (v, u')" and t': "t' = Leaf v"
    by (auto split: sum.splits)
  have "tree_get (Leaf v) ks = Some v \<and> ema_value d a (Leaf b) () = Inr (v, ())"
    if "tree_get (Leaf a) ks = Some a'" "tree_get r ks = Some b" for ks a' b
  proof -
    from that(1) have ks: "ks = []"
      by (cases ks) auto
    with that(2) have "r = Leaf b"
      by (cases r) auto
    with v ks show ?thesis by simp
  qed
  with t' show ?case
    by (auto elim: tree_get.elims)
next
  case (2 kvs b h)
  then show ?case by simp
next
  case (3 kvs kvs2 h)
  from "3.prems" obtain kvs1 where
    m: "multimap_items (ema_value d) kvs kvs2 h = Inr (kvs1, u')" and t': "t' = Dict kvs1"
    by (auto split: sum.splits)
  from "3.hyps" [OF m] t' show ?case by simp
next
  case (4 h)
  then show ?case by simp
next
  case (5 k t kvs k2 t2 kvs2 h)
  from "5.prems" have k: "k = k2"
    by (auto split: if_splits)
  with "5.prems" obtain t1 h1 where m1: "multimap (ema_value d) t t2 h = Inr (t1, h1)"
    by (auto split: sum.splits)
  with "5.prems" k obtain kvs1 where
    m2: "multimap_items (ema_value d) kvs kvs2 h1 = Inr (kvs1, u')"
    and kvs': "kvs' = (k, t1) # kvs1"
    by (auto split: sum.splits)
  from k have nk: "\<not> k \<noteq> k2" by simp
  note IH1 = "5.hyps"(1) [OF nk m1] and IH2 = "5.hyps"(2) [OF nk m1 refl m2]
  have "\<exists>v. tree_get (Dict ((k, t1) # kvs1)) ks = Some v \<and> ema_value d a (Leaf b) () = Inr (v, ())"
    if "tree_get (Dict ((k, t) # kvs)) ks = Some a" "tree_get (Dict ((k2, t2) # kvs2)) ks = Some b"
    for ks a b
  proof (cases ks)
    case Nil
    with that show ?thesis by simp
  next
    case (Cons k' ks')
    show ?thesis
    proof (cases "k' = k")
      case True
      with that Cons k IH1 show ?thesis by simp
    next
      case False
      with that Cons k have "tree_get (Dict kvs) ks = Some a" "tree_get (Dict kvs2) ks = Some b"
        by simp_all
      with IH2 obtain v where "tree_get (Dict kvs1) ks = Some v"
        "ema_value d a (Leaf b) () = Inr (v, ())"
        by blast
      with False Cons show ?thesis by simp
    qed
  qed
  with IH1 IH2 k kvs' show ?case by simp
next
  case (6 x kvs2 h)
  then show ?case by simp
next
  case (7 x kvs h)
  then show ?case by simp
qed

lemma tree_get_in_set: "tree_get t ks = Some a \<Longrightarrow> a \<in> set_pytree t"
proof (induction t ks rule: tree_get.induct)
  case (2 kvs k ks)
  then obtain t where t: "map_of kvs k = Some t" and g: "tree_get t ks = Some a"
    by (auto split: option.splits)
  from t have "(k, t) \<in> set kvs"
    by (rule map_of_SomeD)
  with 2(1) [OF t g] show ?case
    by force
qed auto

section \<open>Copying a tree of objects\<close>

lemma read_tree_append:
  "read_tree n dh c = Some T \<Longrightarrow> read_tree n (dh @ new) c = Some T"
  "read_items n dh kvs = Some ts \<Longrightarrow> read_items n (dh @ new) kvs = Some ts"
proof (induction n dh c and n dh kvs arbitrary: T and ts rule: read_tree_read_items.induct)
  case (3 n dh r)
  then show ?case
    by (auto simp: nth_append split: if_splits)
next
  case (5 n dh k c kvs)
  then show ?case
    by (auto split: option.splits)
qed auto

lemma unchanged_from_prefix: "unchanged_from (dh @ new1 @ new2) lo dh'' \<Longrightarrow> unchanged_from (dh @ new1) lo dh''"
  by (auto simp: unchanged_from_def nth_append)

lemma unchanged_from_suffix:
  "unchanged_from (dh @ new1 @ new2) (length dh) dh'' \<Longrightarrow> unchanged_from ((dh @ new1) @ new2) (length (dh @ new1)) dh''"
  by (auto simp: unchanged_from_def)

lemma tree_map_objects_copy:
  "read_tree n dh c = Some T \<Longrightarrow>
     \<exists>c' new. tree_map_objects n (\<lambda>x. x) dh c = Some (c', dh @ new) \<and>
       (\<forall>dh''. unchanged_from (dh @ new) (length dh) dh'' \<longrightarrow> read_tree n dh'' c' = Some T) \<and>
       (\<forall>r. c = DictRef r \<longrightarrow> (\<exists>r'. c' = DictRef r' \<and> length dh \<le> r'))"
  "read_items n dh kvs = Some ts \<Longrightarrow>
     \<exists>kvs' new. items_map_objects n (\<lambda>x. x) dh kvs = Some (kvs', dh @ new) \<and>
       (\<forall>dh''. unchanged_from (dh @ new) (length dh) dh'' \<longrightarrow> read_items n dh'' kvs' = Some ts)"
proof (induction n "\<lambda>x::addr. x" dh c and n "\<lambda>x::addr. x" dh kvs arbitrary: T and ts
    rule: tree_map_objects_items_map_objects.induct)
  case (1 n dh a)
  then have "tree_map_objects n (\<lambda>x. x) dh (ArrayRef a) = Some (ArrayRef a, dh @ [])"
    by simp
  with 1 show ?case
    by (intro exI [of _ "ArrayRef a"] exI [of _ "[]"]) auto
next
  case (2 dh r)
  then show ?case by simp
next
  case (3 n dh r)
  from "3.prems" obtain ts where r: "r < length dh"
    and ts: "read_items n dh (dh ! r) = Some ts" and T: "T = Dict ts"
    by (auto split: if_splits)
  from "3.hyps" [OF r ts] obtain kvs' new where
    m: "items_map_objects n (\<lambda>x. x) dh (dh ! r) = Some (kvs', dh @ new)"
    and fr: "\<And>dh''. unchanged_from (dh @ new) (length dh) dh'' \<Longrightarrow> read_items n dh'' kvs' = Some ts"
    by blast
  let ?r' = "length (dh @ new)"
  have run: "tree_map_objects (Suc n) (\<lambda>x. x) dh (DictRef r) = Some (DictRef ?r', dh @ (new @ [kvs']))"
    using r m by simp
  have "read_tree (Suc n) dh'' (DictRef ?r') = Some T"
    if k: "unchanged_from (dh @ (new @ [kvs'])) (length dh) dh''" for dh''
  proof -
    from k have "?r' < length dh''" "dh'' ! ?r' = kvs'"
      by (auto simp: unchanged_from_def nth_append)
    moreover from k have "unchanged_from (dh @ new) (length dh) dh''"
      by (rule unchanged_from_prefix)
    ultimately show ?thesis
      using fr T by simp
  qed
  with run show ?case
    by (intro exI [of _ "DictRef ?r'"] exI [of _ "new @ [kvs']"]) auto
next
  case (4 n dh)
  then have "items_map_objects n (\<lambda>x. x) dh [] = Some ([], dh @ [])"
    by simp
  with 4 show ?case
    by (intro exI [of _ "[]"]) auto
next
  case (5 n dh k c kvs)
  from "5.prems" obtain t ts' where t: "read_tree n dh c = Some t"
    and ts': "read_items n dh kvs = Some ts'" and ts: "ts = (k, t) # ts'"
    by (auto split: option.splits)
  from "5.hyps"(1) [OF t] obtain c' new1 where
    m1: "tree_map_objects n (\<lambda>x. x) dh c = Some (c', dh @ new1)"
    and fr1: "\<And>dh''. unchanged_from (dh @ new1) (length dh) dh'' \<Longrightarrow> read_tree n dh'' c' = Some t"
    by auto
  from ts' have ts1: "read_items n (dh @ new1) kvs = Some ts'"
    by (rule read_tree_append(2))
  from "5.hyps"(2) [OF m1 refl ts1] obtain kvs' new2 where
    m2: "items_map_objects n (\<lambda>x. x) (dh @ new1) kvs = Some (kvs', (dh @ new1) @ new2)"
    and fr2: "\<And>dh''. unchanged_from ((dh @ new1) @ new2) (length (dh @ new1)) dh''
        \<Longrightarrow> read_items n dh'' kvs' = Some ts'"
    by blast
  have run: "items_map_objects n (\<lambda>x. x) dh ((k, c) # kvs) = Some ((k, c') # kvs', dh @ (new1 @ new2))"
    using m1 m2 by simp
  have "read_items n dh'' ((k, c') # kvs') = Some ts"
    if k: "unchanged_from (dh @ (new1 @ new2)) (length dh) dh''" for dh''
    using fr1 [OF unchanged_from_prefix [OF k]] fr2 [OF unchanged_from_suffix [OF k]] ts by simp
  with run show ?case
    by (intro exI [of _ "(k, c') # kvs'"] exI [of _ "new1 @ new2"]) auto
qed

lemma valid_tree_allocated: "valid_tree h t \<Longrightarrow> allocated h t"
  by (simp add: valid_tree_def)


section \<open>Evaluation on concrete inputs\<close>

lemmas update_eval =
  update_def tree_multimap_def ema_leaf_def add_arrays_def mul_scalar_l_def mul_scalar_r_def
  broadcast_shapes_def broadcast_to_def alloc_def

lemmas tree_eval =
  valid_tree_def allocated_def valid_state_def wf_array_def leaf_shapes_def tree_structure_def
  deref_def

section \<open>The update rule\<close>

lemma update_decay: "update s p h = Inr (s', h') \<Longrightarrow> decay s' = decay s"
  by (auto simp: update_def split: if_splits option.splits sum.splits)

lemma update_without_shadow: "variables s = None \<Longrightarrow> update s p h = Inr (s, h)"
  by (simp add: update_def)

text \<open>
  C1. On an enabled state, with new variables of the same keys and the same shapes as the
  shadow, \<open>update\<close> returns a state whose shadow has under every key the array
  \<open>decay * shadow[k] + (1 - decay) * new[k]\<close>, element by element. The code multiplies
  the shadow by the decay from the right, so the arithmetic is assumed to multiply
  commutatively, as floating-point and exact arithmetic do; no other law is used.
\<close>

theorem update_blends_every_key:
  fixes s :: "'a::{zero,one,plus,minus,times} EmaState"
  assumes comm: "\<And>x y :: 'a. x * y = y * x"
    and enabled: "decay s \<noteq> 0" and shadow: "variables s = Some sh"
    and keys: "tree_structure P = tree_structure sh"
    and shapes: "leaf_shapes h P = leaf_shapes h sh"
    and valid: "valid_tree h sh" "valid_tree h P"
  shows "\<exists>sh' h'. update s P h = Inr (s\<lparr>variables := Some sh'\<rparr>, h') \<and>
           tree_structure sh' = tree_structure sh \<and>
           (\<forall>ks a b. tree_get sh ks = Some a \<and> tree_get P ks = Some b \<longrightarrow>
              (\<exists>c. tree_get sh' ks = Some c \<and> shape (h' ! c) = shape (h ! a) \<and>
                   elems (h' ! c) =
                     map2 (\<lambda>x y. decay s * x + (1 - decay s) * y) (elems (h ! a)) (elems (h ! b))))"
proof -
  let ?d = "decay s"
  have st: "tree_structure (deref h P) = tree_structure (deref h sh)"
    using keys by (simp add: deref_def)
  have sp: "map shape (tree_leaves (deref h P)) = map shape (tree_leaves (deref h sh))"
    using shapes by (simp add: leaf_shapes_def deref_def tree_leaves_map comp_def)
  have wf: "\<forall>a \<in> set_pytree (deref h sh) \<union> set_pytree (deref h P). wf_array a"
    using valid by (auto simp: valid_tree_def allocated_def deref_def pytree.set_map)
  from multimap_value_formula(1) [OF st sp wf, of ?d] obtain vt' where
    pure: "multimap (ema_value ?d) (deref h sh) (deref h P) () = Inr (vt', ())"
    and st': "tree_structure vt' = tree_structure (deref h sh)"
    and get: "\<And>ks a b. tree_get (deref h sh) ks = Some a \<Longrightarrow>
        tree_get (deref h P) ks = Some b \<Longrightarrow> tree_get vt' ks = Some (blend ?d a b)"
    by blast
  have fl: "flattens_up_to sh P"
    using keys by (rule same_structure_flattens(1))
  from multimap_refines(1) [OF valid [THEN valid_tree_allocated], of ?d] pure obtain t' h' where
    run: "multimap (ema_leaf ?d) sh P h = Inr (t', h')" and vt': "vt' = deref h' t'"
    by (auto split: sum.splits)
  have upd: "update s P h = Inr (s\<lparr>variables := Some t'\<rparr>, h')"
    using enabled shadow fl run by (simp add: update_def tree_multimap_def)
  have str: "tree_structure t' = tree_structure sh"
    using st' vt' by (simp add: deref_def)
  have swap: "(\<lambda>x y. x * ?d + (1 - ?d) * y) = (\<lambda>x y. ?d * x + (1 - ?d) * y)"
    by (simp only: comm [of _ ?d])
  have "\<exists>c. tree_get t' ks = Some c \<and> shape (h' ! c) = shape (h ! a) \<and>
          elems (h' ! c) = map2 (\<lambda>x y. ?d * x + (1 - ?d) * y) (elems (h ! a)) (elems (h ! b))"
    if "tree_get sh ks = Some a" "tree_get P ks = Some b" for ks a b
  proof -
    from that have "tree_get (deref h sh) ks = Some (h ! a)"
      "tree_get (deref h P) ks = Some (h ! b)"
      by (simp_all add: deref_def tree_get_map)
    then have "tree_get (deref h' t') ks = Some (blend ?d (h ! a) (h ! b))"
      using get vt' by simp
    then obtain c where "tree_get t' ks = Some c" "h' ! c = blend ?d (h ! a) (h ! b)"
      by (auto simp: deref_def tree_get_map)
    then show ?thesis
      by (simp add: blend_def swap)
  qed
  with upd str show ?thesis by blast
qed

text \<open>
  The scenario of the specification: shadow \<open>{"w": 2.0}\<close>, decay 0.9 and new variables
  \<open>{"w": 12.0}\<close> give \<open>{"w": 3.0}\<close>.
\<close>

theorem update_blends_every_key_witness:
  "decay \<lparr>decay = (9/10::real), variables = Some (Dict [(''w'', Leaf 0)])\<rparr> \<noteq> 0 \<and>
   tree_structure (Dict [(''w'', Leaf (1::nat))]) = tree_structure (Dict [(''w'', Leaf (0::nat))]) \<and>
   leaf_shapes [NDArray [] [2::real], NDArray [] [12]] (Dict [(''w'', Leaf 1)])
     = leaf_shapes [NDArray [] [2::real], NDArray [] [12]] (Dict [(''w'', Leaf 0)]) \<and>
   valid_tree [NDArray [] [2::real], NDArray [] [12]] (Dict [(''w'', Leaf 0)]) \<and>
   valid_tree [NDArray [] [2::real], NDArray [] [12]] (Dict [(''w'', Leaf 1)]) \<and>
   tree_get (Dict [(''w'', Leaf (0::nat))]) [''w''] = Some 0 \<and>
   tree_get (Dict [(''w'', Leaf (1::nat))]) [''w''] = Some 1 \<and>
   (\<exists>sh' h'. update \<lparr>decay = (9/10::real), variables = Some (Dict [(''w'', Leaf 0)])\<rparr>
        (Dict [(''w'', Leaf 1)]) [NDArray [] [2], NDArray [] [12]]
        = Inr (\<lparr>decay = 9/10, variables = Some sh'\<rparr>, h') \<and>
      (\<exists>c. tree_get sh' [''w''] = Some c \<and> shape (h' ! c) = [] \<and> elems (h' ! c) = [3]))"
proof -
  let ?s = "\<lparr>decay = (9/10::real), variables = Some (Dict [(''w'', Leaf 0)])\<rparr>"
  let ?h = "[NDArray [] [2::real], NDArray [] [12]]"
  have hyps: "decay ?s \<noteq> 0" "variables ?s = Some (Dict [(''w'', Leaf 0)])"
    "tree_structure (Dict [(''w'', Leaf (1::nat))]) = tree_structure (Dict [(''w'', Leaf (0::nat))])"
    "leaf_shapes ?h (Dict [(''w'', Leaf 1)]) = leaf_shapes ?h (Dict [(''w'', Leaf 0)])"
    "valid_tree ?h (Dict [(''w'', Leaf 0)])" "valid_tree ?h (Dict [(''w'', Leaf 1)])"
    by (simp_all add: tree_eval)
  have gets: "tree_get (Dict [(''w'', Leaf (0::nat))]) [''w''] = Some 0"
    "tree_get (Dict [(''w'', Leaf (1::nat))]) [''w''] = Some 1"
    by simp_all
  from update_blends_every_key [OF mult.commute hyps] obtain sh' h' where
    "update ?s (Dict [(''w'', Leaf 1)]) ?h = Inr (?s\<lparr>variables := Some sh'\<rparr>, h')"
    "\<forall>ks a b. tree_get (Dict [(''w'', Leaf 0)]) ks = Some a \<and>
        tree_get (Dict [(''w'', Leaf 1)]) ks = Some b \<longrightarrow>
        (\<exists>c. tree_get sh' ks = Some c \<and> shape (h' ! c) = shape (?h ! a) \<and>
             elems (h' ! c) = map2 (\<lambda>x y. decay ?s * x + (1 - decay ?s) * y)
               (elems (?h ! a)) (elems (?h ! b)))"
    by blast
  with gets have
    "update ?s (Dict [(''w'', Leaf 1)]) ?h = Inr (\<lparr>decay = 9/10, variables = Some sh'\<rparr>, h') \<and>
     (\<exists>c. tree_get sh' [''w''] = Some c \<and> shape (h' ! c) = [] \<and> elems (h' ! c) = [3])"
    by fastforce
  with hyps gets show ?thesis by blast
qed

section \<open>The disabled state and the decay\<close>

text \<open>
  C3. \<open>create\<close> with decay 0 returns a state without shadow, and \<open>update\<close> on a state
  with decay 0 returns a state without shadow (and with decay 0, so this repeats). The
  store is left as it is.
\<close>

theorem disabled_shadow_absent:
  "variables (create (0::'a::{zero,one,plus,minus,times}) P) = None \<and>
   decay (create (0::'a) P) = 0 \<and>
   (decay s = (0::'a) \<longrightarrow>
      (\<exists>s'. update s P2 h = Inr (s', h) \<and> variables s' = None \<and> decay s' = 0))"
  by (simp add: create_def EmaState_default_def update_def)

theorem disabled_shadow_absent_witness:
  "decay (create (0::real) (Dict [(''w'', Leaf 0)])) = 0 \<and>
   variables (create (0::real) (Dict [(''w'', Leaf 0)])) = None \<and>
   (\<exists>s'. update (create (0::real) (Dict [(''w'', Leaf 0)])) (Dict [(''w'', Leaf 1)])
            [NDArray [] [2], NDArray [] [12]] = Inr (s', [NDArray [] [2], NDArray [] [12]])
         \<and> variables s' = None \<and> decay s' = 0)"
  using disabled_shadow_absent [of "Dict [(''w'', Leaf 0)]" "create (0::real) (Dict [(''w'', Leaf 0)])"
      "Dict [(''w'', Leaf 1)]" "[NDArray [] [2], NDArray [] [12]]"]
  by (simp add: create_def EmaState_default_def)

text \<open>
  C6. A state returned by \<open>update\<close> has the decay of the state it was called on, and so
  has the state returned by any run of \<open>update\<close> calls: a disabled state stays disabled
  and an enabled state stays enabled.
\<close>

theorem update_keeps_decay:
  "(update s p h = Inr (s', h') \<longrightarrow> decay s' = decay s) \<and>
   (updates s ps h = Inr (s'', h'') \<longrightarrow>
      decay s'' = decay s \<and> (decay s'' = 0 \<longleftrightarrow> decay s = 0))"
proof
  show "update s p h = Inr (s', h') \<longrightarrow> decay s' = decay s"
    by (simp add: update_decay)
  have "updates s ps h = Inr (s'', h'') \<Longrightarrow> decay s'' = decay s"
  proof (induction ps arbitrary: s h)
    case Nil
    then show ?case by simp
  next
    case (Cons p ps)
    then show ?case
      by (auto split: sum.splits dest: update_decay)
  qed
  then show "updates s ps h = Inr (s'', h'') \<longrightarrow>
      decay s'' = decay s \<and> (decay s'' = 0 \<longleftrightarrow> decay s = 0)"
    by simp
qed

text \<open>
  One update with decay 0.9; the run of the specification: decay 0.5, shadow 0 and three
  updates with the constant 10 give 5, 7.5 and 8.75; and one update of an enabled state
  that has no shadow.
\<close>

theorem update_keeps_decay_witness:
  "update \<lparr>decay = (9/10::real), variables = Some (Dict [(''w'', Leaf 0)])\<rparr>
      (Dict [(''w'', Leaf 1)]) [NDArray [] [2], NDArray [] [12]]
     = Inr (\<lparr>decay = 9/10, variables = Some (Dict [(''w'', Leaf 2)])\<rparr>,
            [NDArray [] [2], NDArray [] [12], NDArray [] [3]]) \<and>
   decay \<lparr>decay = (9/10::real), variables = Some (Dict [(''w'', Leaf 2)])\<rparr>
     = decay \<lparr>decay = (9/10::real), variables = Some (Dict [(''w'', Leaf 0)])\<rparr> \<and>
   updates \<lparr>decay = (1/2::real), variables = Some (Dict [(''w'', Leaf 0)])\<rparr>
       [Dict [(''w'', Leaf 1)], Dict [(''w'', Leaf 1)], Dict [(''w'', Leaf 1)]]
       [NDArray [] [0], NDArray [] [10]]
     = Inr (\<lparr>decay = 1/2, variables = Some (Dict [(''w'', Leaf 4)])\<rparr>,
            [NDArray [] [0], NDArray [] [10], NDArray [] [5], NDArray [] [15/2],
             NDArray [] [35/4]]) \<and>
   update \<lparr>decay = (1/2::real), variables = None\<rparr> (Dict [(''w'', Leaf 1)])
       [NDArray [] [0], NDArray [] [10]]
     = Inr (\<lparr>decay = 1/2, variables = None\<rparr>, [NDArray [] [0], NDArray [] [10]])"
  using update_keeps_decay [where
      s = "\<lparr>decay = (9/10::real), variables = Some (Dict [(''w'', Leaf 0)])\<rparr>" and
      p = "Dict [(''w'', Leaf 1)]" and h = "[NDArray [] [2], NDArray [] [12]]" and
      s' = "\<lparr>decay = 9/10, variables = Some (Dict [(''w'', Leaf 2)])\<rparr>" and
      h' = "[NDArray [] [2], NDArray [] [12], NDArray [] [3]]"]
    update_keeps_decay [where
      s = "\<lparr>decay = (1/2::real), variables = Some (Dict [(''w'', Leaf 0)])\<rparr>" and
      ps = "[Dict [(''w'', Leaf 1)], Dict [(''w'', Leaf 1)], Dict [(''w'', Leaf 1)]]" and
      h = "[NDArray [] [0], NDArray [] [10]]" and
      s'' = "\<lparr>decay = 1/2, variables = Some (Dict [(''w'', Leaf 4)])\<rparr>"]
    update_keeps_decay [where
      s = "\<lparr>decay = (1/2::real), variables = None\<rparr>" and
      p = "Dict [(''w'', Leaf 1)]" and h = "[NDArray [] [0], NDArray [] [10]]" and
      s' = "\<lparr>decay = 1/2, variables = None\<rparr>" and
      h' = "[NDArray [] [0], NDArray [] [10]]"]
  by (simp add: update_eval)

section \<open>The EMA calls of the training script fail\<close>

text \<open>
  C2. \<open>update\<close> takes one argument beside \<open>self\<close>: a call with the new variables alone
  is the update. \<open>train_step\<close> passes the new parameters and the new model state, and
  that call is rejected for its argument count; so every training step on a state that
  holds an \<open>EmaState\<close> fails there.
\<close>

theorem train_step_update_call_rejected:
  "call_update e new_params [] h = update e new_params h \<and>
   call_update e new_params [new_model_state] h = Inl ArgumentCountError \<and>
   (ema state = Some e \<longrightarrow> train_step optimizer_step state batch h = Inl ArgumentCountError)"
  by (auto simp: call_update_def train_step_def split: prod.splits)

theorem train_step_update_call_rejected_witness:
  "ema \<lparr>step = 0, optimizer = \<lparr>target = Dict [(''w'', Leaf 1)], opt_state = ()\<rparr>,
        model_state = Dict [], dynamic_scale = (None :: unit option),
        ema = Some \<lparr>decay = (9/10::real), variables = Some (Dict [(''w'', Leaf 0)])\<rparr>\<rparr>
     = Some \<lparr>decay = (9/10::real), variables = Some (Dict [(''w'', Leaf 0)])\<rparr> \<and>
   train_step (\<lambda>st (b::unit) hp. (optimizer st, model_state st, dynamic_scale st, (), hp))
     \<lparr>step = 0, optimizer = \<lparr>target = Dict [(''w'', Leaf 1)], opt_state = ()\<rparr>,
      model_state = Dict [], dynamic_scale = (None :: unit option),
      ema = Some \<lparr>decay = (9/10::real), variables = Some (Dict [(''w'', Leaf 0)])\<rparr>\<rparr>
     () [NDArray [] [2], NDArray [] [12]]
     = Inl ArgumentCountError"
  using train_step_update_call_rejected [where
      e = "\<lparr>decay = (9/10::real), variables = Some (Dict [(''w'', Leaf 0)])\<rparr>" and
      state = "\<lparr>step = 0, optimizer = \<lparr>target = Dict [(''w'', Leaf 1)], opt_state = ()\<rparr>,
        model_state = Dict [], dynamic_scale = (None :: unit option),
        ema = Some \<lparr>decay = (9/10::real), variables = Some (Dict [(''w'', Leaf 0)])\<rparr>\<rparr>" and
      optimizer_step = "\<lambda>st (b::unit) hp. (optimizer st, model_state st, dynamic_scale st, (), hp)" and
      batch = "()" and h = "[NDArray [] [2], NDArray [] [12]]"]
  by simp

text \<open>
  C9. \<open>create\<close> takes two arguments: a call with the decay and the variables alone is
  \<open>create\<close>. \<open>create_train_state\<close> passes the model state as a third argument, and
  that call is rejected for its argument count, whatever the configuration (also with
  \<open>ema_decay = 0\<close>); no \<open>EmaState\<close> and no training state is produced.
\<close>

theorem create_train_state_call_rejected:
  "call_create d vs [] = Inr (create d vs) \<and>
   call_create d vs [mstate] = Inl ArgumentCountError \<and>
   create_train_state platform new_dynamic_scale create_optim config params mstate
     = Inl ArgumentCountError"
  by (simp add: call_create_def create_train_state_def Let_def)

text \<open>
  C10. An \<open>EmaState\<close> has the fields \<open>decay\<close> and \<open>variables\<close>; it has no attribute
  \<open>params\<close> and no attribute \<open>model_state\<close>. \<open>eval_step_ema\<close> reads both, so it
  fails with an attribute error on every input, before the model is applied.
\<close>

theorem eval_step_ema_attribute_error:
  "EmaState_getattr e ''decay'' = Inr (FloatAttr (decay e)) \<and>
   EmaState_getattr e ''variables'' = Inr (TreeAttr (variables e)) \<and>
   EmaState_getattr e ''params'' = Inl AttributeError \<and>
   EmaState_getattr e ''model_state'' = Inl AttributeError \<and>
   eval_step_ema apply_fn compute_metrics state batch = Inl AttributeError"
  by (simp add: EmaState_getattr_def eval_step_ema_def split: option.splits)

section \<open>Copies, sharing and purity\<close>

text \<open>
  C4, as the code has it. With a decay other than 0, \<open>create\<close> returns a state whose
  shadow reads as \<open>P\<close> does: the same keys and, under each key, the very tensor object of
  \<open>P\<close>, so the two are equal element by element. Its dictionaries, at every level, are
  new objects (\<open>jax.tree_map\<close> rebuilds them) and those of \<open>P\<close> are left as they are:
  whatever is done afterwards to the dictionaries that existed before the call, those of
  \<open>P\<close> among them (a key rebound, added or removed), the shadow reads the same. The
  tensors are not copied (\<open>lambda x: x\<close> returns the leaf itself): in every store of
  arrays the shadow reads what these tensor objects hold.
\<close>

theorem create_copies_dictionaries:
  assumes "d \<noteq> 0" and "read_tree n dh P = Some T"
  shows "\<exists>r dh'. create_objects n d P dh = Some ((d, Some r), dh') \<and>
           read_tree n dh' r = Some T \<and> read_tree n dh' P = Some T \<and>
           \<lparr>decay = d, variables = read_tree n dh' r\<rparr> = create d T \<and>
           (\<forall>h :: 'b heap. map_option (deref h) (read_tree n dh' r) = Some (deref h T)) \<and>
           take (length dh) dh' = dh \<and>
           (\<forall>r0. P = DictRef r0 \<longrightarrow> (\<exists>r1. r = DictRef r1 \<and> length dh \<le> r1)) \<and>
           (\<forall>dh''. unchanged_from dh' (length dh) dh'' \<longrightarrow> read_tree n dh'' r = Some T)"
proof -
  from tree_map_objects_copy(1) [OF assms(2)] obtain r new where
    m: "tree_map_objects n (\<lambda>x. x) dh P = Some (r, dh @ new)"
    and fr: "\<And>dh''. unchanged_from (dh @ new) (length dh) dh'' \<Longrightarrow> read_tree n dh'' r = Some T"
    and nw: "\<forall>r0. P = DictRef r0 \<longrightarrow> (\<exists>r1. r = DictRef r1 \<and> length dh \<le> r1)"
    by auto
  have c: "create_objects n d P dh = Some ((d, Some r), dh @ new)"
    using assms(1) m by (simp add: create_objects_def)
  have "unchanged_from (dh @ new) (length dh) (dh @ new)"
    by (simp add: unchanged_from_def)
  then have rd: "read_tree n (dh @ new) r = Some T"
    by (rule fr)
  have rp: "read_tree n (dh @ new) P = Some T"
    using assms(2) by (rule read_tree_append(1))
  have v: "\<lparr>decay = d, variables = Some T\<rparr> = create d T"
    using assms(1) by (simp add: create_def tree_map_def pytree.map_ident)
  from c rd rp v nw fr show ?thesis
    by (intro exI [of _ r] exI [of _ "dh @ new"]) simp
qed

text \<open>
  \<open>P = {"a": {"x": t1}, "w": t0}\<close> with its inner dictionary at address 0 and itself at
  address 1. \<open>create\<close> allocates the dictionaries 2 and 3. Afterwards \<open>P["w"] = t1\<close>
  and \<open>P["a"]["x"] = t0\<close> change the objects 0 and 1: \<open>P\<close> reads differently, the
  shadow as before.
\<close>

theorem create_copies_dictionaries_witness:
  "(9/10::real) \<noteq> 0 \<and>
   read_tree 2 [[(''x'', ArrayRef 1)], [(''a'', DictRef 0), (''w'', ArrayRef 0)]] (DictRef 1)
     = Some (Dict [(''a'', Dict [(''x'', Leaf 1)]), (''w'', Leaf 0)]) \<and>
   create_objects 2 (9/10::real) (DictRef 1)
       [[(''x'', ArrayRef 1)], [(''a'', DictRef 0), (''w'', ArrayRef 0)]]
     = Some ((9/10, Some (DictRef 3)),
             [[(''x'', ArrayRef 1)], [(''a'', DictRef 0), (''w'', ArrayRef 0)],
              [(''x'', ArrayRef 1)], [(''a'', DictRef 2), (''w'', ArrayRef 0)]]) \<and>
   read_tree 2 [[(''x'', ArrayRef 0)], [(''a'', DictRef 0), (''w'', ArrayRef 1)],
                [(''x'', ArrayRef 1)], [(''a'', DictRef 2), (''w'', ArrayRef 0)]] (DictRef 1)
     = Some (Dict [(''a'', Dict [(''x'', Leaf 0)]), (''w'', Leaf 1)]) \<and>
   read_tree 2 [[(''x'', ArrayRef 0)], [(''a'', DictRef 0), (''w'', ArrayRef 1)],
                [(''x'', ArrayRef 1)], [(''a'', DictRef 2), (''w'', ArrayRef 0)]] (DictRef 3)
     = Some (Dict [(''a'', Dict [(''x'', Leaf 1)]), (''w'', Leaf 0)])"
proof -
  let ?dh = "[[(''x'', ArrayRef 1)], [(''a'', DictRef 0), (''w'', ArrayRef 0)]]"
  let ?dh' = "?dh @ [[(''x'', ArrayRef 1)], [(''a'', DictRef 2), (''w'', ArrayRef 0)]]"
  let ?dh'' = "[[(''x'', ArrayRef 0)], [(''a'', DictRef 0), (''w'', ArrayRef 1)],
                [(''x'', ArrayRef 1)], [(''a'', DictRef 2), (''w'', ArrayRef 0)]]"
  let ?T = "Dict [(''a'', Dict [(''x'', Leaf 1)]), (''w'', Leaf 0)]"
  have hyps: "(9/10::real) \<noteq> 0" "read_tree 2 ?dh (DictRef 1) = Some ?T"
    by (simp_all add: eval_nat_numeral)
  have run: "create_objects 2 (9/10::real) (DictRef 1) ?dh = Some ((9/10, Some (DictRef 3)), ?dh')"
    by (simp add: create_objects_def eval_nat_numeral)
  have later: "unchanged_from ?dh' (length ?dh) ?dh''"
    by (simp add: unchanged_from_def nth_Cons split: nat.splits)
  from create_copies_dictionaries [OF hyps] run later
  have shadow: "read_tree 2 ?dh'' (DictRef 3) = Some ?T"
    by auto
  have p: "read_tree 2 ?dh'' (DictRef 1)
      = Some (Dict [(''a'', Dict [(''x'', Leaf 0)]), (''w'', Leaf 1)])"
    by (simp add: eval_nat_numeral)
  from hyps run shadow p show ?thesis by simp
qed

text \<open>
  The claim as stated fails: \<open>P = {"w": a}\<close> with a mutable array \<open>a = [1, 2]\<close>. The
  shadow created from it is a new dictionary (object 1) that holds \<open>a\<close> itself, so after
  the in-place write \<open>a[0] = 5\<close> the shadow reads \<open>[5, 2]\<close>.
\<close>

theorem create_deep_copy_counterexample:
  "create_objects 1 (9/10::real) (DictRef 0) [[(''w'', ArrayRef 0)]]
     = Some ((9/10, Some (DictRef 1)), [[(''w'', ArrayRef 0)], [(''w'', ArrayRef 0)]]) \<and>
   read_tree 1 [[(''w'', ArrayRef 0)], [(''w'', ArrayRef 0)]] (DictRef 1)
     = Some (Dict [(''w'', Leaf 0)]) \<and>
   deref [NDArray [2] [1, 2::real]] (Dict [(''w'', Leaf 0)])
     = Dict [(''w'', Leaf (NDArray [2] [1, 2]))] \<and>
   deref (write_array [NDArray [2] [1, 2::real]] 0 (NDArray [2] [5, 2])) (Dict [(''w'', Leaf 0)])
     = Dict [(''w'', Leaf (NDArray [2] [5, 2]))] \<and>
   NDArray [2] [5, 2::real] \<noteq> NDArray [2] [1, 2]"
  by (simp add: create_objects_def deref_def write_array_def)



section \<open>Equal parameters\<close>

text \<open>
  C7, as the code has it. On an enabled state whose shadow reads equal to the new
  variables, \<open>update\<close> returns a state whose shadow has, in place of every element
  \<open>x\<close>, the value \<open>decay * x + (1 - decay) * x\<close> as the element arithmetic computes
  it. The shadow is unchanged whenever that arithmetic satisfies
  \<open>decay * x + (1 - decay) * x = x\<close>, as exact arithmetic does. (Multiplication is
  assumed commutative, as in C1.)
\<close>

theorem update_equal_parameters:
  fixes s :: "'a::{zero,one,plus,minus,times} EmaState"
  assumes comm: "\<And>x y :: 'a. x * y = y * x"
    and enabled: "decay s \<noteq> 0" and shadow: "variables s = Some sh"
    and valid: "valid_tree h sh" "valid_tree h P"
    and same: "deref h P = deref h sh"
  shows "\<exists>sh' h'. update s P h = Inr (s\<lparr>variables := Some sh'\<rparr>, h') \<and>
           deref h' sh' =
             map_pytree (\<lambda>a. NDArray (shape a)
                 (map (\<lambda>x. decay s * x + (1 - decay s) * x) (elems a))) (deref h sh) \<and>
           ((\<forall>x. decay s * x + (1 - decay s) * x = x) \<longrightarrow> deref h' sh' = deref h sh)"
proof -
  let ?d = "decay s"
  let ?g = "\<lambda>a. NDArray (shape a) (map (\<lambda>x. ?d * x + (1 - ?d) * x) (elems a))"
  have wf: "\<forall>a \<in> set_pytree (deref h sh). wf_array a"
    using valid(1) by (auto simp: valid_tree_def allocated_def deref_def pytree.set_map)
  have g: "blend ?d a a = ?g a" for a
    by (simp add: blend_def zip_same_conv_map comm [of _ ?d])
  from multimap_value_self(1) [OF wf, of ?d "()"] same
  have pure: "multimap (ema_value ?d) (deref h sh) (deref h P) ()
      = Inr (map_pytree ?g (deref h sh), ())"
    by (simp add: g)
  have "tree_structure P = tree_structure sh"
    using same tree_structure_map [of "\<lambda>a. h ! a" P] tree_structure_map [of "\<lambda>a. h ! a" sh]
    by (simp add: deref_def)
  then have fl: "flattens_up_to sh P"
    by (rule same_structure_flattens(1))
  from multimap_refines(1) [OF valid [THEN valid_tree_allocated], of ?d] pure obtain t' h' where
    run: "multimap (ema_leaf ?d) sh P h = Inr (t', h')"
    and t': "deref h' t' = map_pytree ?g (deref h sh)"
    by (auto split: sum.splits)
  have upd: "update s P h = Inr (s\<lparr>variables := Some t'\<rparr>, h')"
    using enabled shadow fl run by (simp add: update_def tree_multimap_def)
  have "deref h' t' = deref h sh" if law: "\<forall>x. ?d * x + (1 - ?d) * x = x"
  proof -
    from law have "?g = (\<lambda>a. a)"
      by (simp add: fun_eq_iff)
    with t' show ?thesis
      by (simp add: pytree.map_ident)
  qed
  with upd t' show ?thesis by blast
qed

text \<open>Over the reals the law holds: shadow and new variables \<open>{"w": [2, 4]}\<close>, decay 0.9.\<close>

theorem update_equal_parameters_witness:
  "decay \<lparr>decay = (9/10::real), variables = Some (Dict [(''w'', Leaf 0)])\<rparr> \<noteq> 0 \<and>
   valid_tree [NDArray [2] [2, 4::real], NDArray [2] [2, 4]] (Dict [(''w'', Leaf 0)]) \<and>
   valid_tree [NDArray [2] [2, 4::real], NDArray [2] [2, 4]] (Dict [(''w'', Leaf 1)]) \<and>
   deref [NDArray [2] [2, 4::real], NDArray [2] [2, 4]] (Dict [(''w'', Leaf 1)])
     = deref [NDArray [2] [2, 4::real], NDArray [2] [2, 4]] (Dict [(''w'', Leaf 0)]) \<and>
   (\<forall>x::real. 9/10 * x + (1 - 9/10) * x = x) \<and>
   (\<exists>sh' h'. update \<lparr>decay = (9/10::real), variables = Some (Dict [(''w'', Leaf 0)])\<rparr>
        (Dict [(''w'', Leaf 1)]) [NDArray [2] [2, 4], NDArray [2] [2, 4]]
        = Inr (\<lparr>decay = 9/10, variables = Some sh'\<rparr>, h') \<and>
      deref h' sh' = Dict [(''w'', Leaf (NDArray [2] [2, 4]))])"
proof -
  let ?s = "\<lparr>decay = (9/10::real), variables = Some (Dict [(''w'', Leaf 0)])\<rparr>"
  let ?h = "[NDArray [2] [2, 4::real], NDArray [2] [2, 4]]"
  have hyps: "decay ?s \<noteq> 0" "variables ?s = Some (Dict [(''w'', Leaf 0)])"
    "valid_tree ?h (Dict [(''w'', Leaf 0)])" "valid_tree ?h (Dict [(''w'', Leaf 1)])"
    "deref ?h (Dict [(''w'', Leaf 1)]) = deref ?h (Dict [(''w'', Leaf 0)])"
    by (simp_all add: tree_eval)
  have law: "\<forall>x::real. 9/10 * x + (1 - 9/10) * x = x"
    by (simp add: algebra_simps)
  from update_equal_parameters [OF mult.commute hyps] law obtain sh' h' where
    "update ?s (Dict [(''w'', Leaf 1)]) ?h = Inr (?s\<lparr>variables := Some sh'\<rparr>, h')"
    "deref h' sh' = deref ?h (Dict [(''w'', Leaf 0)])"
    by auto
  then have "update ?s (Dict [(''w'', Leaf 1)]) ?h
        = Inr (\<lparr>decay = 9/10, variables = Some sh'\<rparr>, h') \<and>
      deref h' sh' = Dict [(''w'', Leaf (NDArray [2] [2, 4]))]"
    by (simp add: deref_def)
  with hyps law show ?thesis by blast
qed

text \<open>
  The claim as stated fails on Python floats. The decay is the float \<open>0.9\<close> and the one
  element of shadow and new variables is the float \<open>3/7 = 0.42857142857142855\<close> (each
  the binary64 number nearest to the decimal: within half a unit in the last place). The
  update returns \<open>0.4285714285714285\<close>, one unit in the last place below.
\<close>

theorem update_equal_parameters_counterexample:
  "\<bar>binary64_value (Binary64 8106479329266893 (- 53)) - 9/10\<bar> \<le> 1 / 2 ^ 54 \<and>
   \<bar>binary64_value (Binary64 7720456504063707 (- 54)) - 3/7\<bar> \<le> 1 / 2 ^ 55 \<and>
   update \<lparr>decay = Binary64 8106479329266893 (- 53), variables = Some (Dict [(''w'', Leaf 0)])\<rparr>
     (Dict [(''w'', Leaf 0)]) [NDArray [] [Binary64 7720456504063707 (- 54)]]
     = Inr (\<lparr>decay = Binary64 8106479329266893 (- 53), variables = Some (Dict [(''w'', Leaf 1)])\<rparr>,
            [NDArray [] [Binary64 7720456504063707 (- 54)],
             NDArray [] [Binary64 3860228252031853 (- 53)]]) \<and>
   Binary64 3860228252031853 (- 53) \<noteq> Binary64 7720456504063707 (- 54)"
proof -
  have a1: "Binary64 7720456504063707 (- 54) * Binary64 8106479329266893 (- 53)
      = Binary64 868551356707167 (- 51)"
    by code_simp
  have a2: "1 - Binary64 8106479329266893 (- 53) = Binary64 900719925474099 (- 53)"
    by code_simp
  have a3: "Binary64 900719925474099 (- 53) * Binary64 7720456504063707 (- 54)
      = Binary64 1544091300812741 (- 55)"
    by code_simp
  have a4: "Binary64 868551356707167 (- 51) + Binary64 1544091300812741 (- 55)
      = Binary64 3860228252031853 (- 53)"
    by code_simp
  have nz: "Binary64 8106479329266893 (- 53) \<noteq> 0"
    by (simp add: zero_binary64_def)
  have v1: "\<bar>binary64_value (Binary64 8106479329266893 (- 53)) - 9/10\<bar> \<le> 1 / 2 ^ 54"
    by (simp add: binary64_value_def)
  have v2: "\<bar>binary64_value (Binary64 7720456504063707 (- 54)) - 3/7\<bar> \<le> 1 / 2 ^ 55"
    by (simp add: binary64_value_def)
  have "update \<lparr>decay = Binary64 8106479329266893 (- 53), variables = Some (Dict [(''w'', Leaf 0)])\<rparr>
     (Dict [(''w'', Leaf 0)]) [NDArray [] [Binary64 7720456504063707 (- 54)]]
     = Inr (\<lparr>decay = Binary64 8106479329266893 (- 53), variables = Some (Dict [(''w'', Leaf 1)])\<rparr>,
            [NDArray [] [Binary64 7720456504063707 (- 54)],
             NDArray [] [Binary64 3860228252031853 (- 53)]])"
    by (simp add: update_eval nz a1 a2 a3 a4)
  with v1 v2 show ?thesis by simp
qed

section \<open>Mismatched keys and shapes\<close>

text \<open>
  C5, as the code has it. \<open>update\<close> has no check of its own; what happens on a mismatch
  is what \<open>jax.tree_multimap\<close> and the array arithmetic do. On an enabled state with a
  shadow:
  \<^item> the call fails (and returns no state) exactly when the key structure of the new
    variables differs from the shadow's or the shapes of two corresponding tensors are
    not compatible for broadcasting;
  \<^item> when the key sets of two corresponding dictionaries differ, at any level (a key of
    the shadow is missing, or there is an extra key), it fails with the tree-structure
    error;
  \<^item> when it returns, the shadow has the same keys, and under every key the tensor has the
    broadcast shape and at every index the element
    \<open>shadow * decay + (1 - decay) * new\<close> of the two broadcast operands. Shapes that
    differ but are compatible are therefore accepted and broadcast.
\<close>

theorem update_mismatch_fails:
  fixes s :: "'a::{zero,one,plus,minus,times} EmaState"
  assumes "decay s \<noteq> 0" and "variables s = Some sh"
    and "valid_tree h sh" and "valid_tree h P"
  shows "((\<exists>e. update s P h = Inl e) \<longleftrightarrow>
            tree_structure P \<noteq> tree_structure sh \<or>
            \<not> list_all2 (\<lambda>a b. shapes_compatible (shape (h ! a)) (shape (h ! b)))
                (tree_leaves sh) (tree_leaves P)) \<and>
         (\<forall>ks kvs kvs2. subtree sh ks = Some (Dict kvs) \<and> subtree P ks = Some (Dict kvs2) \<and>
              set (map fst kvs2) \<noteq> set (map fst kvs)
            \<longrightarrow> update s P h = Inl TreeStructureError) \<and>
         (\<forall>s' h'. update s P h = Inr (s', h') \<longrightarrow>
            decay s' = decay s \<and>
            (\<exists>sh'. variables s' = Some sh' \<and> tree_structure sh' = tree_structure sh \<and>
               (\<forall>ks a b. tree_get sh ks = Some a \<and> tree_get P ks = Some b \<longrightarrow>
                  (\<exists>c. tree_get sh' ks = Some c \<and>
                       shape (h' ! c) = broadcast_result (shape (h ! a)) (shape (h ! b)) \<and>
                       length (elems (h' ! c)) = prod_list (shape (h' ! c)) \<and>
                       (\<forall>idx. in_bounds (shape (h' ! c)) idx \<longrightarrow>
                          elems (h' ! c) ! ravel (shape (h' ! c)) idx
                            = broadcast_element (h ! a) (shape (h' ! c)) idx * decay s
                              + (1 - decay s) * broadcast_element (h ! b) (shape (h' ! c)) idx)))))"
proof -
  let ?d = "decay s"
  let ?match = "tree_structure P = tree_structure sh \<and>
      list_all2 (\<lambda>a b. shapes_compatible (shape (h ! a)) (shape (h ! b)))
        (tree_leaves sh) (tree_leaves P)"
  have al: "allocated h sh" "allocated h P"
    using assms by (simp_all add: valid_tree_allocated)
  have als: "\<And>t. variables s = Some t \<Longrightarrow> allocated h t"
    using assms(2) al(1) by simp
  have obs: "observe (update s P h) = update_value ?d (Some (deref h sh)) (deref h P)"
    using observe_update [of s h P, OF als al(2)] assms(2) by simp
  have leaves: "list_all2 broadcastable (tree_leaves (deref h sh)) (tree_leaves (deref h P))
      \<longleftrightarrow> list_all2 (\<lambda>a b. shapes_compatible (shape (h ! a)) (shape (h ! b)))
            (tree_leaves sh) (tree_leaves P)"
    by (simp add: deref_def tree_leaves_map list_all2_map1 list_all2_map2 broadcastable_compatible)
  have keys: "update s P h = Inl TreeStructureError"
    if "subtree sh ks = Some (Dict kvs)" "subtree P ks = Some (Dict kvs2)"
      "set (map fst kvs2) \<noteq> set (map fst kvs)" for ks kvs kvs2
  proof -
    from that(3) have "map fst kvs2 \<noteq> map fst kvs" by metis
    with flattens_subtree_keys [OF _ that(1,2)] have "\<not> flattens_up_to sh P"
      by blast
    with assms(1,2) show ?thesis
      by (simp add: update_def tree_multimap_def)
  qed
  have success: ?match if "update s P h = Inr r" for r
  proof -
    from that obtain d vs where "observe (update s P h) = Inr (d, vs)"
      by (cases r) (simp add: observe_def)
    with obs have "update_value ?d (Some (deref h sh)) (deref h P) = Inr (d, vs)"
      by simp
    with assms(1) obtain vt' u where
      "multimap (ema_value ?d) (deref h sh) (deref h P) () = Inr (vt', u)"
      by (auto simp: update_value_def split: if_splits sum.splits)
    from multimap_value_success(1) [OF this] leaves show ?thesis
      by (simp add: deref_def)
  qed
  have returns: "\<exists>r. update s P h = Inr r" if ?match
  proof -
    from that leaves have st: "tree_structure (deref h P) = tree_structure (deref h sh)"
      and br: "list_all2 broadcastable (tree_leaves (deref h sh)) (tree_leaves (deref h P))"
      by (simp_all add: deref_def)
    from multimap_value_succeeds(1) [OF st br, of ?d "()"] obtain vt' where
      "multimap (ema_value ?d) (deref h sh) (deref h P) () = Inr (vt', ())"
      by blast
    moreover have "flattens_up_to (deref h sh) (deref h P)"
      using st by (rule same_structure_flattens(1))
    ultimately have "observe (update s P h) = Inr (?d, Some vt')"
      using obs assms(1) by (simp add: update_value_def)
    then show ?thesis
      by (cases "update s P h") (auto simp: observe_def)
  qed
  have iff: "(\<exists>e. update s P h = Inl e) \<longleftrightarrow> \<not> ?match"
  proof
    assume "\<exists>e. update s P h = Inl e"
    with returns show "\<not> ?match" by auto
  next
    assume "\<not> ?match"
    with success show "\<exists>e. update s P h = Inl e"
      by (cases "update s P h") auto
  qed
  have result: "decay s' = ?d \<and>
      (\<exists>sh'. variables s' = Some sh' \<and> tree_structure sh' = tree_structure sh \<and>
         (\<forall>ks a b. tree_get sh ks = Some a \<and> tree_get P ks = Some b \<longrightarrow>
            (\<exists>c. tree_get sh' ks = Some c \<and>
                 shape (h' ! c) = broadcast_result (shape (h ! a)) (shape (h ! b)) \<and>
                 length (elems (h' ! c)) = prod_list (shape (h' ! c)) \<and>
                 (\<forall>idx. in_bounds (shape (h' ! c)) idx \<longrightarrow>
                    elems (h' ! c) ! ravel (shape (h' ! c)) idx
                      = broadcast_element (h ! a) (shape (h' ! c)) idx * ?d
                        + (1 - ?d) * broadcast_element (h ! b) (shape (h' ! c)) idx))))"
    if upd: "update s P h = Inr (s', h')" for s' h'
  proof -
    from upd assms(1,2) obtain t' where
      run: "multimap (ema_leaf ?d) sh P h = Inr (t', h')"
      and s': "s' = s\<lparr>variables := Some t'\<rparr>"
      by (auto simp: update_def tree_multimap_def split: if_splits sum.splits)
    from multimap_refines(1) [OF al, of ?d] run
    have pure: "multimap (ema_value ?d) (deref h sh) (deref h P) () = Inr (deref h' t', ())"
      by simp
    note get = multimap_value_get(1) [OF pure]
    have str: "tree_structure t' = tree_structure sh"
      using get by (simp add: deref_def)
    have "\<exists>c. tree_get t' ks = Some c \<and>
             shape (h' ! c) = broadcast_result (shape (h ! a)) (shape (h ! b)) \<and>
             length (elems (h' ! c)) = prod_list (shape (h' ! c)) \<and>
             (\<forall>idx. in_bounds (shape (h' ! c)) idx \<longrightarrow>
                elems (h' ! c) ! ravel (shape (h' ! c)) idx
                  = broadcast_element (h ! a) (shape (h' ! c)) idx * ?d
                    + (1 - ?d) * broadcast_element (h ! b) (shape (h' ! c)) idx)"
      if a: "tree_get sh ks = Some a" and b: "tree_get P ks = Some b" for ks a b
    proof -
      from a b have "tree_get (deref h sh) ks = Some (h ! a)"
        "tree_get (deref h P) ks = Some (h ! b)"
        by (simp_all add: deref_def tree_get_map)
      with get obtain v where v: "tree_get (deref h' t') ks = Some v"
        and ev: "ema_value ?d (h ! a) (Leaf (h ! b)) () = Inr (v, ())"
        by blast
      from v obtain c where c: "tree_get t' ks = Some c" and hc: "h' ! c = v"
        by (auto simp: deref_def tree_get_map)
      from a b al have wf: "wf_array (h ! a)" "wf_array (h ! b)"
        by (auto simp: allocated_def dest: tree_get_in_set)
      note spec = ema_value_spec [OF wf ev]
      from c hc spec show ?thesis by simp
    qed
    with s' str show ?thesis by simp
  qed
  from iff keys result show ?thesis by blast
qed

text \<open>
  Three inputs: a shadow \<open>{"a": {"x": 1}}\<close> against new variables
  \<open>{"a": {"y": 2}}\<close>; a tensor of shape \<open>[2]\<close> against one of shape \<open>[3]\<close>; and a
  tensor \<open>[2, 4]\<close> of shape \<open>[2]\<close> against \<open>[12]\<close> of shape \<open>[1]\<close> with decay 0.9,
  where the result has shape \<open>[2]\<close> and its second element is \<open>4 * 0.9 + 0.1 * 12\<close>.
\<close>

theorem update_mismatch_fails_witness:
  "update \<lparr>decay = (9/10::real), variables = Some (Dict [(''a'', Dict [(''x'', Leaf 0)])])\<rparr>
     (Dict [(''a'', Dict [(''y'', Leaf 1)])]) [NDArray [] [1], NDArray [] [2]]
     = Inl TreeStructureError \<and>
   \<not> shapes_compatible [2] [3] \<and>
   (\<exists>e. update \<lparr>decay = (9/10::real), variables = Some (Dict [(''w'', Leaf 0)])\<rparr>
     (Dict [(''w'', Leaf 1)]) [NDArray [2] [2, 4], NDArray [3] [12, 1, 1]] = Inl e) \<and>
   shapes_compatible [2] [1] \<and>
   (\<exists>s' h' sh' c.
      update \<lparr>decay = (9/10::real), variables = Some (Dict [(''w'', Leaf 0)])\<rparr>
        (Dict [(''w'', Leaf 1)]) [NDArray [2] [2, 4], NDArray [1] [12]] = Inr (s', h') \<and>
      variables s' = Some sh' \<and> tree_get sh' [''w''] = Some c \<and>
      shape (h' ! c) = [2] \<and> elems (h' ! c) ! 1 = 24/5)"
proof -
  let ?s1 = "\<lparr>decay = (9/10::real), variables = Some (Dict [(''a'', Dict [(''x'', Leaf 0)])])\<rparr>"
  let ?p1 = "Dict [(''a'', Dict [(''y'', Leaf (1::nat))])]"
  let ?h1 = "[NDArray [] [1::real], NDArray [] [2]]"
  let ?s = "\<lparr>decay = (9/10::real), variables = Some (Dict [(''w'', Leaf 0)])\<rparr>"
  let ?p = "Dict [(''w'', Leaf (1::nat))]"
  let ?h2 = "[NDArray [2] [2, 4::real], NDArray [3] [12, 1, 1]]"
  let ?h3 = "[NDArray [2] [2, 4::real], NDArray [1] [12]]"
  have hyps1: "decay ?s1 \<noteq> 0" "variables ?s1 = Some (Dict [(''a'', Dict [(''x'', Leaf 0)])])"
    "valid_tree ?h1 (Dict [(''a'', Dict [(''x'', Leaf 0)])])" "valid_tree ?h1 ?p1"
    by (simp_all add: tree_eval)
  have hyps2: "decay ?s \<noteq> 0" "variables ?s = Some (Dict [(''w'', Leaf 0)])"
    "valid_tree ?h2 (Dict [(''w'', Leaf 0)])" "valid_tree ?h2 ?p"
    by (simp_all add: tree_eval)
  have hyps3: "decay ?s \<noteq> 0" "variables ?s = Some (Dict [(''w'', Leaf 0)])"
    "valid_tree ?h3 (Dict [(''w'', Leaf 0)])" "valid_tree ?h3 ?p"
    by (simp_all add: tree_eval)
  have c23: "\<not> shapes_compatible [2] [3]" and c21: "shapes_compatible [2] [1]"
    by (simp_all add: shapes_compatible_def)
  have one: "update ?s1 ?p1 ?h1 = Inl TreeStructureError"
    using update_mismatch_fails [OF hyps1, THEN conjunct2, THEN conjunct1, rule_format,
        of "[''a'']" "[(''x'', Leaf 0)]" "[(''y'', Leaf 1)]"]
    by simp
  have two: "\<exists>e. update ?s ?p ?h2 = Inl e"
    using update_mismatch_fails [OF hyps2, THEN conjunct1] c23
    by (simp add: tree_structure_def)
  have run: "update ?s ?p ?h3
      = Inr (\<lparr>decay = 9/10, variables = Some (Dict [(''w'', Leaf 2)])\<rparr>,
             [NDArray [2] [2, 4], NDArray [1] [12], NDArray [2] [3, 24/5]])"
    by (simp add: update_eval upt_rec eval_nat_numeral)
  let ?h' = "[NDArray [2] [2, 4::real], NDArray [1] [12], NDArray [2] [3, 24/5]]"
  from update_mismatch_fails [OF hyps3, THEN conjunct2, THEN conjunct2, rule_format, OF run]
  obtain sh' where sh': "Some (Dict [(''w'', Leaf 2)]) = Some sh'"
    and all: "\<forall>ks a b. tree_get (Dict [(''w'', Leaf 0)]) ks = Some a \<and> tree_get ?p ks = Some b \<longrightarrow>
        (\<exists>c. tree_get sh' ks = Some c \<and>
             shape (?h' ! c) = broadcast_result (shape (?h3 ! a)) (shape (?h3 ! b)) \<and>
             length (elems (?h' ! c)) = prod_list (shape (?h' ! c)) \<and>
             (\<forall>idx. in_bounds (shape (?h' ! c)) idx \<longrightarrow>
                elems (?h' ! c) ! ravel (shape (?h' ! c)) idx
                  = broadcast_element (?h3 ! a) (shape (?h' ! c)) idx * decay ?s
                    + (1 - decay ?s) * broadcast_element (?h3 ! b) (shape (?h' ! c)) idx))"
    by auto
  from all [rule_format, of "[''w'']" 0 1] obtain c where
    c: "tree_get sh' [''w''] = Some c"
    and shp: "shape (?h' ! c) = broadcast_result [2] [1]"
    and el: "\<forall>idx. in_bounds (shape (?h' ! c)) idx \<longrightarrow>
        elems (?h' ! c) ! ravel (shape (?h' ! c)) idx
          = broadcast_element (?h3 ! 0) (shape (?h' ! c)) idx * decay ?s
            + (1 - decay ?s) * broadcast_element (?h3 ! 1) (shape (?h' ! c)) idx"
    by auto
  from shp have shp2: "shape (?h' ! c) = [2]"
    by (simp add: broadcast_result_def pad_shape_def)
  from el [rule_format, of "[1]"] shp2 have "elems (?h' ! c) ! 1 = 24/5"
    by (simp add: in_bounds_def broadcast_element_def pad_shape_def)
  with run sh' c shp2 have three: "\<exists>s' h' sh' c.
      update ?s ?p ?h3 = Inr (s', h') \<and> variables s' = Some sh' \<and>
      tree_get sh' [''w''] = Some c \<and> shape (h' ! c) = [2] \<and> elems (h' ! c) ! 1 = 24/5"
    by (intro exI [of _ "\<lparr>decay = 9/10, variables = Some (Dict [(''w'', Leaf 2)])\<rparr>"] exI [of _ ?h']
        exI [of _ sh'] exI [of _ c]) simp
  from one two three c23 c21 show ?thesis by blast
qed

text \<open>
  The claim as stated fails: mismatched shapes that can be broadcast are not rejected. A
  shadow tensor of shape \<open>[2]\<close> against a new tensor of shape \<open>[1]\<close>: the call returns,
  with the one new value broadcast over both elements.
\<close>

theorem update_broadcasts_counterexample:
  "leaf_shapes [NDArray [2] [2, 4::real], NDArray [1] [12]] (Dict [(''w'', Leaf 1)])
     \<noteq> leaf_shapes [NDArray [2] [2, 4::real], NDArray [1] [12]] (Dict [(''w'', Leaf 0)]) \<and>
   update \<lparr>decay = (9/10::real), variables = Some (Dict [(''w'', Leaf 0)])\<rparr>
     (Dict [(''w'', Leaf 1)]) [NDArray [2] [2, 4], NDArray [1] [12]]
     = Inr (\<lparr>decay = 9/10, variables = Some (Dict [(''w'', Leaf 2)])\<rparr>,
            [NDArray [2] [2, 4], NDArray [1] [12], NDArray [2] [3, 24/5]])"
  by (simp add: update_eval leaf_shapes_def upt_rec eval_nat_numeral)

end
